theory Spec2Isabelle
  imports Complex_Main
begin

section \<open>Numbers of the program\<close>

text \<open>
  Every number of the program is an IEEE-754 double: the C++ \<^verbatim>\<open>double\<close> of the Kalman
  filter and the JavaScript \<^verbatim>\<open>Number\<close> of the strategy modules. A double is modelled as
  a real number or one of the three special values. The special values follow IEEE-754: a
  division by zero does not fail, it yields an infinity or NaN (a zero denominator is taken
  as +0), an undefined form yields NaN, NaN propagates through arithmetic and every ordered
  comparison with NaN is false. The sign of zero is not modelled.

  The arithmetic is given at two levels. The operations \<open>dadd\<close>, \<open>dsub\<close>, \<open>dmul\<close>, \<open>ddiv\<close>
  and \<open>dexp\<close> are exact on finite operands, and a decimal constant of the source
  (\<^verbatim>\<open>0.95\<close>) stands for that decimal fraction; the concrete runs, whose values are stated
  with a margin far beyond the rounding error, and the statements about the special values
  are made at this level. The operations \<open>b64_add\<close>, \<open>b64_sub\<close>, \<open>b64_mul\<close>, \<open>b64_div\<close> and
  \<open>b64_exp\<close> round the exact result to binary64, and a decimal constant is the double
  nearest to it (\<open>fl64 0.95\<close>); the statements whose truth depends on rounding (strict
  inequalities, the ceiling or the rounding of a quotient) are made at this level.
\<close>

datatype double = Fin real | PInf | NInf | NaN

fun dneg :: "double \<Rightarrow> double" where
  "dneg (Fin a) = Fin (- a)"
| "dneg PInf = NInf"
| "dneg NInf = PInf"
| "dneg NaN = NaN"

fun dadd :: "double \<Rightarrow> double \<Rightarrow> double" where
  "dadd (Fin a) (Fin b) = Fin (a + b)"
| "dadd NaN _ = NaN"
| "dadd _ NaN = NaN"
| "dadd PInf NInf = NaN"
| "dadd NInf PInf = NaN"
| "dadd PInf _ = PInf"
| "dadd _ PInf = PInf"
| "dadd NInf _ = NInf"
| "dadd _ NInf = NInf"

definition dsub :: "double \<Rightarrow> double \<Rightarrow> double" where
  "dsub a b = dadd a (dneg b)"

text \<open>The sign of a product or quotient with an infinite operand.\<close>

definition signed_inf :: "bool \<Rightarrow> double" where
  "signed_inf positive = (if positive then PInf else NInf)"

fun dmul :: "double \<Rightarrow> double \<Rightarrow> double" where
  "dmul (Fin a) (Fin b) = Fin (a * b)"
| "dmul NaN _ = NaN"
| "dmul _ NaN = NaN"
| "dmul (Fin a) PInf = (if a = 0 then NaN else signed_inf (0 < a))"
| "dmul (Fin a) NInf = (if a = 0 then NaN else signed_inf (a < 0))"
| "dmul PInf (Fin b) = (if b = 0 then NaN else signed_inf (0 < b))"
| "dmul NInf (Fin b) = (if b = 0 then NaN else signed_inf (b < 0))"
| "dmul PInf PInf = PInf"
| "dmul PInf NInf = NInf"
| "dmul NInf PInf = NInf"
| "dmul NInf NInf = PInf"

fun ddiv :: "double \<Rightarrow> double \<Rightarrow> double" where
  "ddiv (Fin a) (Fin b) =
     (if b = 0 then (if a = 0 then NaN else signed_inf (0 < a)) else Fin (a / b))"
| "ddiv NaN _ = NaN"
| "ddiv _ NaN = NaN"
| "ddiv (Fin a) PInf = Fin 0"
| "ddiv (Fin a) NInf = Fin 0"
| "ddiv PInf (Fin b) = signed_inf (0 \<le> b)"
| "ddiv NInf (Fin b) = signed_inf (b < 0)"
| "ddiv PInf PInf = NaN"
| "ddiv PInf NInf = NaN"
| "ddiv NInf PInf = NaN"
| "ddiv NInf NInf = NaN"

fun dexp :: "double \<Rightarrow> double" where
  "dexp (Fin a) = Fin (exp a)"
| "dexp PInf = PInf"
| "dexp NInf = Fin 0"
| "dexp NaN = NaN"

text \<open>The ordered comparisons \<^verbatim>\<open><\<close> and \<^verbatim>\<open><=\<close>; \<^verbatim>\<open>></\<close> and \<^verbatim>\<open>>=\<close> swap the operands.\<close>

fun dlt :: "double \<Rightarrow> double \<Rightarrow> bool" where
  "dlt (Fin a) (Fin b) = (a < b)"
| "dlt NInf (Fin b) = True"
| "dlt NInf PInf = True"
| "dlt (Fin a) PInf = True"
| "dlt _ _ = False"

fun dle :: "double \<Rightarrow> double \<Rightarrow> bool" where
  "dle (Fin a) (Fin b) = (a \<le> b)"
| "dle NInf (Fin b) = True"
| "dle NInf PInf = True"
| "dle (Fin a) PInf = True"
| "dle NInf NInf = True"
| "dle PInf PInf = True"
| "dle _ _ = False"

definition dgt :: "double \<Rightarrow> double \<Rightarrow> bool" where
  "dgt a b = dlt b a"

definition dge :: "double \<Rightarrow> double \<Rightarrow> bool" where
  "dge a b = dle b a"

subsection \<open>Rounding to binary64\<close>

text \<open>
  Round to nearest, ties to even, on the reals: \<open>binade x\<close> is the exponent of \<open>x\<close>, not
  below the least normal exponent -1022 (so that subnormal numbers share one spacing),
  \<open>ulp x\<close> is the spacing of the doubles at \<open>x\<close>, and \<open>rn x\<close> is the multiple of \<open>ulp x\<close>
  nearest to \<open>x\<close>, the even multiple when two are equally near.
\<close>

definition round_even :: "real \<Rightarrow> int" where
  "round_even r =
     (let f = \<lfloor>r\<rfloor>
      in if r - of_int f < 1 / 2 then f
         else if 1 / 2 < r - of_int f then f + 1
         else if even f then f else f + 1)"

definition binade :: "real \<Rightarrow> int" where
  "binade x = max \<lfloor>log 2 \<bar>x\<bar>\<rfloor> (- 1022)"

definition ulp :: "real \<Rightarrow> real" where
  "ulp x = 2 powi (binade x - 52)"

definition rn :: "real \<Rightarrow> real" where
  "rn x = sgn x * (ulp x * of_int (round_even (\<bar>x\<bar> / ulp x)))"

text \<open>
  A result whose rounded magnitude reaches \<open>2^1024\<close> overflows to the infinity of its sign.
  \<open>round64\<close> rounds the exact result of an operation; the special values pass through.
  Every operation rounds once: the product and the sum of \<^verbatim>\<open>a + b * c\<close> are not fused.
  \<^verbatim>\<open>std::exp\<close> is taken as correctly rounded.
\<close>

definition overflow_threshold :: real where
  "overflow_threshold = 2 powi 1024"

definition fl64 :: "real \<Rightarrow> double" where
  "fl64 x = (if overflow_threshold \<le> \<bar>rn x\<bar> then signed_inf (0 < x) else Fin (rn x))"

definition round64 :: "double \<Rightarrow> double" where
  "round64 d = (case d of Fin x \<Rightarrow> fl64 x | _ \<Rightarrow> d)"

definition b64_add :: "double \<Rightarrow> double \<Rightarrow> double" where
  "b64_add a b = round64 (dadd a b)"

definition b64_sub :: "double \<Rightarrow> double \<Rightarrow> double" where
  "b64_sub a b = round64 (dsub a b)"

definition b64_mul :: "double \<Rightarrow> double \<Rightarrow> double" where
  "b64_mul a b = round64 (dmul a b)"

definition b64_div :: "double \<Rightarrow> double \<Rightarrow> double" where
  "b64_div a b = round64 (ddiv a b)"

definition b64_exp :: "double \<Rightarrow> double" where
  "b64_exp a = round64 (dexp a)"

definition is_binary64 :: "double \<Rightarrow> bool" where
  "is_binary64 d = (round64 d = d)"

section \<open>The Kalman filter\<close>

subsection \<open>The native addon: UpdateState\<close>

text \<open>
  \<^verbatim>\<open>UpdateState\<close> of kalman_addon.cpp receives \<^verbatim>\<open>x, P, Q, R, wear_rate, measurement\<close> and
  returns the object \<^verbatim>\<open>{x, P, cliffProb}\<close>. The gain \<^verbatim>\<open>K = P_pred / (P_pred + R)\<close> is a
  local of the function; it is named here so that statements can speak about it. The
  logistic expression \<^verbatim>\<open>1.0 / (1.0 + std::exp(-steepness * (x - cliff_threshold)))\<close> occurs
  in the addon and in the class alike and is written once, as \<open>sigmoid_cliff\<close>. The
  function has no check and no failure path.
\<close>

record update_result =
  res_x :: double
  res_P :: double
  res_cliffProb :: double

definition kalman_gain :: "double \<Rightarrow> double \<Rightarrow> double" where
  "kalman_gain P_pred R = ddiv P_pred (dadd P_pred R)"

definition sigmoid_cliff :: "double \<Rightarrow> double \<Rightarrow> double \<Rightarrow> double" where
  "sigmoid_cliff x cliff_threshold steepness =
     ddiv (Fin 1) (dadd (Fin 1) (dexp (dmul (dneg steepness) (dsub x cliff_threshold))))"

definition UpdateState ::
  "double \<Rightarrow> double \<Rightarrow> double \<Rightarrow> double \<Rightarrow> double \<Rightarrow> double \<Rightarrow> update_result" where
  "UpdateState x P Q R wear_rate measurement =
     (let x_pred = dadd x wear_rate;
          P_pred = dadd P Q;
          K = kalman_gain P_pred R;
          new_x = dadd x_pred (dmul K (dsub measurement x_pred));
          new_P = dmul (dsub (Fin 1) K) P_pred;
          cliff_threshold = Fin 0.60;
          steepness = Fin 15;
          cliff_prob = sigmoid_cliff new_x cliff_threshold steepness
      in \<lparr> res_x = new_x, res_P = new_P, res_cliffProb = cliff_prob \<rparr>)"

subsection \<open>The class TireDegradationFilter\<close>

text \<open>
  The fields \<^verbatim>\<open>x, P, Q, R, wear_rate\<close> of the class; \<^verbatim>\<open>update\<close> mutates \<^verbatim>\<open>x\<close> and \<^verbatim>\<open>P\<close> and
  returns the new \<^verbatim>\<open>x\<close>, so the model returns the new object and the returned value.
\<close>

record tire_filter =
  flt_x :: double
  flt_P :: double
  flt_Q :: double
  flt_R :: double
  flt_wear_rate :: double

definition TireDegradationFilter ::
  "double \<Rightarrow> double \<Rightarrow> double \<Rightarrow> double \<Rightarrow> double \<Rightarrow> tire_filter" where
  "TireDegradationFilter initial_deg initial_p q r expected_wear =
     \<lparr> flt_x = initial_deg, flt_P = initial_p, flt_Q = q, flt_R = r,
       flt_wear_rate = expected_wear \<rparr>"

definition update :: "tire_filter \<Rightarrow> double \<Rightarrow> tire_filter \<times> double" where
  "update f noisy_measurement =
     (let x_pred = dadd (flt_x f) (flt_wear_rate f);
          P_pred = dadd (flt_P f) (flt_Q f);
          K = kalman_gain P_pred (flt_R f);
          x' = dadd x_pred (dmul K (dsub noisy_measurement x_pred));
          P' = dmul (dsub (Fin 1) K) P_pred
      in (f\<lparr> flt_x := x', flt_P := P' \<rparr>, x'))"

definition calculateCliffProbability :: "tire_filter \<Rightarrow> double \<Rightarrow> double \<Rightarrow> double" where
  "calculateCliffProbability f cliff_threshold steepness =
     sigmoid_cliff (flt_x f) cliff_threshold steepness"

text \<open>
  The loop of \<^verbatim>\<open>main\<close>: each reading is fed to \<^verbatim>\<open>update\<close>, then the cliff probability of
  the updated filter is computed; one row \<^verbatim>\<open>(smoothed_state, cliff_prob)\<close> is printed per
  lap. The model returns the final filter and the rows in order.
\<close>

fun main_loop ::
  "tire_filter \<Rightarrow> double \<Rightarrow> double \<Rightarrow> double list \<Rightarrow> tire_filter \<times> (double \<times> double) list" where
  "main_loop f cliff_threshold steepness [] = (f, [])"
| "main_loop f cliff_threshold steepness (m # ms) =
     (let (f', smoothed_state) = update f m;
          cliff_prob = calculateCliffProbability f' cliff_threshold steepness;
          (f'', rows) = main_loop f' cliff_threshold steepness ms
      in (f'', (smoothed_state, cliff_prob) # rows))"

definition noisy_telemetry :: "double list" where
  "noisy_telemetry =
     [Fin 0.04, Fin 0.12, Fin 0.09, Fin 0.25, Fin 0.18,
      Fin 0.35, Fin 0.30, Fin 0.55, Fin 0.48, Fin 0.70]"

definition main :: "tire_filter \<times> (double \<times> double) list" where
  "main = main_loop (TireDegradationFilter (Fin 0) (Fin 1) (Fin 0.01) (Fin 0.5) (Fin 0.05))
            (Fin 0.60) (Fin 15) noisy_telemetry"

subsection \<open>The filter in binary64\<close>

text \<open>
  \<^verbatim>\<open>UpdateState\<close>, \<^verbatim>\<open>update\<close> and \<^verbatim>\<open>calculateCliffProbability\<close> once more, with every
  operation of the source rounded to binary64 and the constant \<^verbatim>\<open>0.60\<close> as the double
  nearest to it.
\<close>

definition kalman_gain_b64 :: "double \<Rightarrow> double \<Rightarrow> double" where
  "kalman_gain_b64 P_pred R = b64_div P_pred (b64_add P_pred R)"

definition sigmoid_cliff_b64 :: "double \<Rightarrow> double \<Rightarrow> double \<Rightarrow> double" where
  "sigmoid_cliff_b64 x cliff_threshold steepness =
     b64_div (Fin 1)
       (b64_add (Fin 1) (b64_exp (b64_mul (dneg steepness) (b64_sub x cliff_threshold))))"

definition UpdateState_b64 ::
  "double \<Rightarrow> double \<Rightarrow> double \<Rightarrow> double \<Rightarrow> double \<Rightarrow> double \<Rightarrow> update_result" where
  "UpdateState_b64 x P Q R wear_rate measurement =
     (let x_pred = b64_add x wear_rate;
          P_pred = b64_add P Q;
          K = kalman_gain_b64 P_pred R;
          new_x = b64_add x_pred (b64_mul K (b64_sub measurement x_pred));
          new_P = b64_mul (b64_sub (Fin 1) K) P_pred;
          cliff_threshold = fl64 0.60;
          steepness = Fin 15;
          cliff_prob = sigmoid_cliff_b64 new_x cliff_threshold steepness
      in \<lparr> res_x = new_x, res_P = new_P, res_cliffProb = cliff_prob \<rparr>)"

definition update_b64 :: "tire_filter \<Rightarrow> double \<Rightarrow> tire_filter \<times> double" where
  "update_b64 f noisy_measurement =
     (let x_pred = b64_add (flt_x f) (flt_wear_rate f);
          P_pred = b64_add (flt_P f) (flt_Q f);
          K = kalman_gain_b64 P_pred (flt_R f);
          x' = b64_add x_pred (b64_mul K (b64_sub noisy_measurement x_pred));
          P' = b64_mul (b64_sub (Fin 1) K) P_pred
      in (f\<lparr> flt_x := x', flt_P := P' \<rparr>, x'))"

definition calculateCliffProbability_b64 :: "tire_filter \<Rightarrow> double \<Rightarrow> double \<Rightarrow> double" where
  "calculateCliffProbability_b64 f cliff_threshold steepness =
     sigmoid_cliff_b64 (flt_x f) cliff_threshold steepness"

subsection \<open>Reading a result\<close>

text \<open>
  \<^verbatim>\<open>std::isfinite\<close> / \<^verbatim>\<open>Number.isFinite\<close>, and "the value is \<open>v\<close> up to \<open>tol\<close>" for a
  finite value (a special value approximates nothing).
\<close>

definition is_finite :: "double \<Rightarrow> bool" where
  "is_finite d = (case d of Fin a \<Rightarrow> True | _ \<Rightarrow> False)"


section \<open>JavaScript numbers: Math and the remaining operators\<close>

text \<open>
  \<^verbatim>\<open>Math.max\<close> and \<^verbatim>\<open>Math.min\<close> of two arguments return NaN when an argument is NaN;
  \<^verbatim>\<open>Math.ceil\<close> and \<^verbatim>\<open>Math.round\<close> leave the special values alone, and \<^verbatim>\<open>Math.round\<close>
  rounds a half up (\<open>\<lfloor>a + 1/2\<rfloor>\<close>). The remainder \<^verbatim>\<open>%\<close> truncates the quotient toward zero;
  \<^verbatim>\<open>===\<close> on numbers is false for NaN.
\<close>

definition Math_max :: "double \<Rightarrow> double \<Rightarrow> double" where
  "Math_max a b = (if a = NaN \<or> b = NaN then NaN else if dle a b then b else a)"

definition Math_min :: "double \<Rightarrow> double \<Rightarrow> double" where
  "Math_min a b = (if a = NaN \<or> b = NaN then NaN else if dle a b then a else b)"

fun Math_ceil :: "double \<Rightarrow> double" where
  "Math_ceil (Fin a) = Fin (of_int \<lceil>a\<rceil>)"
| "Math_ceil d = d"

fun Math_round :: "double \<Rightarrow> double" where
  "Math_round (Fin a) = Fin (of_int \<lfloor>a + 1 / 2\<rfloor>)"
| "Math_round d = d"




section \<open>Tire strategy\<close>

text \<open>
  A compound is one of the six keys of \<^verbatim>\<open>maxLapsMap\<close>; or a name that the object inherits
  from \<^verbatim>\<open>Object.prototype\<close> (such as \<^verbatim>\<open>constructor\<close>), for which \<^verbatim>\<open>maxLapsMap[compound]\<close> is
  the inherited function or object, a truthy value whose numeric value is NaN wherever
  the result is used in arithmetic; or any other value (\<^verbatim>\<open>undefined\<close>, an unknown name),
  which the lookup does not find and for which \<^verbatim>\<open>maxLapsMap[compound] || 20\<close> is 20.
  The strings the functions return are kept as strings. The fields of every record carry
  a prefix that names the record, since plain names such as \<^verbatim>\<open>lap\<close> are needed as
  parameters.
\<close>

datatype compound =
  SOFT | MEDIUM | HARD | WET | INTERMEDIATE | EXTREME_WET | INHERITED_NAME | UNKNOWN_COMPOUND

fun getMaxLaps :: "compound \<Rightarrow> double" where
  "getMaxLaps SOFT = Fin 18"
| "getMaxLaps MEDIUM = Fin 28"
| "getMaxLaps HARD = Fin 40"
| "getMaxLaps WET = Fin 35"
| "getMaxLaps INTERMEDIATE = Fin 30"
| "getMaxLaps EXTREME_WET = Fin 25"
| "getMaxLaps INHERITED_NAME = NaN"
| "getMaxLaps UNKNOWN_COMPOUND = Fin 20"

definition getDegradationCurveMultiplier :: "double \<Rightarrow> compound \<Rightarrow> double" where
  "getDegradationCurveMultiplier currentLap compound =
     (let maxLaps = getMaxLaps compound;
          percentageOfLife = ddiv currentLap maxLaps
      in if dlt percentageOfLife (Fin 0.3) then Fin 1.0
         else if dlt percentageOfLife (Fin 0.6) then Fin 1.3
         else if dlt percentageOfLife (Fin 0.85) then Fin 1.8
         else if dlt percentageOfLife (Fin 0.95) then Fin 2.5
         else Fin 4.0)"

definition isPitStopMandatory :: "double \<Rightarrow> compound \<Rightarrow> bool" where
  "isPitStopMandatory lapsCompleted compound =
     (let maxLaps = getMaxLaps compound;
          criticalPercent = Fin 0.99
      in dge lapsCompleted (dmul maxLaps criticalPercent))"


section \<open>Pit stop analyzer\<close>

record pit_stop_analyzer =
  psa_trackLength :: double
  psa_pitLaneLength :: double
  psa_avgLapTime :: double
  psa_pitStopDuration :: double

text \<open>The constructor; its parameter defaults to 7.0 when it is not passed.\<close>

definition PitStopAnalyzer :: "double option \<Rightarrow> pit_stop_analyzer" where
  "PitStopAnalyzer trackLength =
     \<lparr> psa_trackLength = (case trackLength of None \<Rightarrow> Fin 7.0 | Some v \<Rightarrow> v),
       psa_pitLaneLength = Fin 0.400,
       psa_avgLapTime = Fin 190,
       psa_pitStopDuration = Fin 24 \<rparr>"

definition calculateTimeLoss :: "pit_stop_analyzer \<Rightarrow> double option \<Rightarrow> double" where
  "calculateTimeLoss this avgLapTime_arg =
     (let avgLapTime = (case avgLapTime_arg of None \<Rightarrow> psa_avgLapTime this | Some v \<Rightarrow> v)
      in dadd (psa_pitStopDuration this)
           (dmul (ddiv (psa_pitLaneLength this) (psa_trackLength this)) avgLapTime))"

text \<open>
  \<^verbatim>\<open>estimatePositionLoss\<close> draws one number from \<^verbatim>\<open>Math.random()\<close>; the model takes the
  number drawn as the parameter \<open>random\<close>. The field \<^verbatim>\<open>detail\<close> of the result, a message
  built from the other fields, is left out.
\<close>

record position_loss =
  pl_timeLossSeconds :: double
  pl_positionsLost :: double
  pl_newPosition :: double

definition estimatePositionLoss ::
  "pit_stop_analyzer \<Rightarrow> double \<Rightarrow> double \<Rightarrow> double option \<Rightarrow> double \<Rightarrow> position_loss" where
  "estimatePositionLoss this currentPosition lap raceLength_arg random =
     (let raceLength = (case raceLength_arg of None \<Rightarrow> Fin 300 | Some v \<Rightarrow> v);
          raceProgress = ddiv lap raceLength;
          spreadFactor = dsub (Fin 1) (dmul raceProgress (Fin 0.5));
          timeLossSeconds = psa_pitStopDuration this;
          avgLapSeconds = psa_avgLapTime this;
          positionsLost0 =
            dmul (Math_ceil (ddiv timeLossSeconds (dmul avgLapSeconds (Fin 0.15)))) spreadFactor;
          positionsLost1 =
            Math_max (Fin 1) (Math_min positionsLost0 (dsub currentPosition (Fin 1)));
          variance = dmul (dsub random (Fin 0.5)) (Fin 1);
          positionsLost = Math_max (Fin 1) (dadd positionsLost1 variance)
      in \<lparr> pl_timeLossSeconds = timeLossSeconds,
           pl_positionsLost = Math_round positionsLost,
           pl_newPosition = dadd currentPosition (Math_round positionsLost) \<rparr>)"

record pit_window =
  pw_recommendation :: string
  pw_urgency :: string
  pw_lapsToGo :: double
  pw_reason :: string

definition determineOptimalPitWindow ::
  "double \<Rightarrow> double \<Rightarrow> double \<Rightarrow> double option \<Rightarrow> double option \<Rightarrow> pit_window" where
  "determineOptimalPitWindow currentLap currentCliffProb lapsSinceLastPit tireAge_arg maxTireAge_arg =
     (let tireAge = (case tireAge_arg of None \<Rightarrow> Fin 0 | Some v \<Rightarrow> v);
          maxTireAge = (case maxTireAge_arg of None \<Rightarrow> Fin 25 | Some v \<Rightarrow> v);
          criticalCliff = Fin 0.75;
          warningCliff = Fin 0.65
      in if dge tireAge (dmul maxTireAge (Fin 0.95)) then
           \<lparr> pw_recommendation = ''PIT_IMMEDIATELY'', pw_urgency = ''CRITICAL'',
             pw_lapsToGo = Fin 0,
             pw_reason = ''Tire age at critical limit - immediate pit required'' \<rparr>
         else if dge currentCliffProb criticalCliff then
           \<lparr> pw_recommendation = ''PIT_IMMEDIATELY'', pw_urgency = ''CRITICAL'',
             pw_lapsToGo = Fin 0,
             pw_reason = ''Tires at critical degradation level'' \<rparr>
         else if dge currentCliffProb warningCliff then
           \<lparr> pw_recommendation = ''PIT_SOON'', pw_urgency = ''HIGH'',
             pw_lapsToGo = Fin 1,
             pw_reason = ''Tires approaching cliff, pit in next lap'' \<rparr>
         else if dgt lapsSinceLastPit (Fin 20) \<and> dgt currentCliffProb (Fin 0.50) then
           \<lparr> pw_recommendation = ''CONSIDER_PIT'', pw_urgency = ''MEDIUM'',
             pw_lapsToGo = Fin 2,
             pw_reason = ''Tires degrading, consider strategic pit'' \<rparr>
         else
           \<lparr> pw_recommendation = ''STAY_OUT'', pw_urgency = ''LOW'',
             pw_lapsToGo = Fin 5,
             pw_reason = ''Tires fresh, extend current stint'' \<rparr>)"

text \<open>
  The argument object of \<^verbatim>\<open>analyzePitStrategy\<close>; \<^verbatim>\<open>tireAge\<close> and \<^verbatim>\<open>maxTireAge\<close> default to
  0 and 25 when the caller leaves them out.
\<close>

record current_state =
  cs_lap :: double
  cs_currentPosition :: double
  cs_gapToLeader :: double
  cs_cliffProb :: double
  cs_fuel :: double
  cs_fuelPerLap :: double
  cs_weather :: string
  cs_lapsSincePit :: double
  cs_tireAge :: "double option"
  cs_maxTireAge :: "double option"

text \<open>
  The local object \<^verbatim>\<open>analysis\<close>, and the object returned:
  \<^verbatim>\<open>{...analysis, totalUrgency, decision}\<close>.
\<close>

record analysis =
  an_shouldPit :: bool
  an_reason :: "string list"
  an_tireUrgency :: double
  an_fuelUrgency :: double
  an_strategyUrgency :: double

record pit_strategy = analysis +
  an_totalUrgency :: double
  an_decision :: string

text \<open>
  The body of \<^verbatim>\<open>analyzePitStrategy\<close> is four blocks, each of which updates the object
  \<^verbatim>\<open>analysis\<close>; a block is modelled as a function from the object before it to the object
  after it, named after the comment that heads it in the source. The arithmetic of this
  function is rounded to binary64: the quotients \<^verbatim>\<open>tireAge / maxTireAge\<close> and
  \<^verbatim>\<open>fuel / fuelPerLap\<close>, the product \<^verbatim>\<open>cliffProb * 5\<close> and the weighted mean are doubles, and
  the thresholds are the doubles nearest to the decimal constants.
\<close>

definition tireAgeUrgency :: "analysis \<Rightarrow> double \<Rightarrow> double \<Rightarrow> analysis" where
  "tireAgeUrgency a tireAgePercent cliffProb =
     (if dge tireAgePercent (fl64 0.95) then
        a\<lparr> an_tireUrgency := Fin 10,
           an_reason := an_reason a @ [''CRITICAL: Tire at maximum age limit''],
           an_shouldPit := True \<rparr>
      else if dge tireAgePercent (fl64 0.85) then
        a\<lparr> an_tireUrgency := Fin 9,
           an_reason := an_reason a @ [''CRITICAL: Tire age 85%+ of lifespan''],
           an_shouldPit := True \<rparr>
      else if dge tireAgePercent (fl64 0.75) then
        a\<lparr> an_tireUrgency := Fin 7,
           an_reason := an_reason a @ [''HIGH: Tire approaching age limit''] \<rparr>
      else if dge tireAgePercent (fl64 0.60) then
        a\<lparr> an_tireUrgency := Fin 4,
           an_reason := an_reason a @ [''MEDIUM: Tire halfway through lifespan''] \<rparr>
      else
        a\<lparr> an_tireUrgency := Math_round (b64_mul cliffProb (Fin 5)) \<rparr>)"

definition cliffProbabilityUrgency :: "analysis \<Rightarrow> double \<Rightarrow> analysis" where
  "cliffProbabilityUrgency a cliffProb =
     (if dgt cliffProb (fl64 0.75) then
        a\<lparr> an_tireUrgency := Math_max (an_tireUrgency a) (Fin 10),
           an_reason := an_reason a @ [''CRITICAL: Tires at cliff''],
           an_shouldPit := True \<rparr>
      else if dgt cliffProb (fl64 0.65) then
        a\<lparr> an_tireUrgency := Math_max (an_tireUrgency a) (Fin 7),
           an_reason := an_reason a @ [''HIGH: Tires degrading rapidly''] \<rparr>
      else if dgt cliffProb (fl64 0.50) then
        a\<lparr> an_tireUrgency := Math_max (an_tireUrgency a) (Fin 4),
           an_reason := an_reason a @ [''MEDIUM: Tires wearing''] \<rparr>
      else a)"

definition fuelUrgency :: "analysis \<Rightarrow> double \<Rightarrow> double \<Rightarrow> analysis" where
  "fuelUrgency a fuel fuelPerLap =
     (let lapsRemaining = Math_ceil (b64_div fuel fuelPerLap)
      in if dlt lapsRemaining (Fin 5) then
           a\<lparr> an_fuelUrgency := Fin 10,
              an_reason := an_reason a @ [''CRITICAL: Fuel critically low''],
              an_shouldPit := True \<rparr>
         else if dlt lapsRemaining (Fin 10) then
           a\<lparr> an_fuelUrgency := Fin 6,
              an_reason := an_reason a @ [''HIGH: Must pit for fuel soon''] \<rparr>
         else
           a\<lparr> an_fuelUrgency := Fin 1 \<rparr>)"

definition strategyUrgency ::
  "analysis \<Rightarrow> double \<Rightarrow> double \<Rightarrow> double \<Rightarrow> string \<Rightarrow> analysis" where
  "strategyUrgency a currentPosition cliffProb lapsSincePit weather =
     (if dgt currentPosition (Fin 10) \<and> dgt cliffProb (fl64 0.50) \<and> dgt lapsSincePit (Fin 15) then
        a\<lparr> an_strategyUrgency := Fin 6,
           an_reason := an_reason a @ [''MEDIUM: Use pit to change tire strategy''] \<rparr>
      else if weather = ''WET'' \<or> weather = ''INTERMEDIATE'' then
        a\<lparr> an_strategyUrgency := Fin 5,
           an_reason := an_reason a @ [''MEDIUM: Weather changing - consider fresh tires''] \<rparr>
      else
        a\<lparr> an_strategyUrgency := Fin 1 \<rparr>)"

definition analyzePitStrategy :: "current_state \<Rightarrow> pit_strategy" where
  "analyzePitStrategy currentState =
     (let currentPosition = cs_currentPosition currentState;
          cliffProb = cs_cliffProb currentState;
          fuel = cs_fuel currentState;
          fuelPerLap = cs_fuelPerLap currentState;
          weather = cs_weather currentState;
          lapsSincePit = cs_lapsSincePit currentState;
          tireAge = (case cs_tireAge currentState of None \<Rightarrow> Fin 0 | Some v \<Rightarrow> v);
          maxTireAge = (case cs_maxTireAge currentState of None \<Rightarrow> Fin 25 | Some v \<Rightarrow> v);
          a0 = \<lparr> an_shouldPit = False, an_reason = [], an_tireUrgency = Fin 0,
                 an_fuelUrgency = Fin 0, an_strategyUrgency = Fin 0 \<rparr>;
          tireAgePercent = b64_div tireAge maxTireAge;
          a1 = tireAgeUrgency a0 tireAgePercent cliffProb;
          a2 = cliffProbabilityUrgency a1 cliffProb;
          a3 = fuelUrgency a2 fuel fuelPerLap;
          a4 = strategyUrgency a3 currentPosition cliffProb lapsSincePit weather;
          totalUrgency =
            b64_div (b64_add (b64_add (b64_mul (an_tireUrgency a4) (fl64 1.5)) (an_fuelUrgency a4))
                             (an_strategyUrgency a4))
                    (fl64 3.5)
      in \<lparr> an_shouldPit = an_shouldPit a4, an_reason = an_reason a4,
           an_tireUrgency = an_tireUrgency a4, an_fuelUrgency = an_fuelUrgency a4,
           an_strategyUrgency = an_strategyUrgency a4,
           an_totalUrgency = Math_round totalUrgency,
           an_decision = (if an_shouldPit a4 then ''BOX'' else ''STAY'') \<rparr>)"

section \<open>The dashboard: handleAiDecision\<close>





section \<open>The decision rules in the words of the specification\<close>

text \<open>
  The ladder of the specification below the mandatory check, and the value of a sub-score
  as the greatest value among the rules that fire on a 0 to 10 scale.
\<close>



definition ladder_spec :: "double \<Rightarrow> double \<Rightarrow> string" where
  "ladder_spec cliffProb lapsSincePit =
     (if dge cliffProb (Fin 0.75) then ''PIT_IMMEDIATELY''
      else if dge cliffProb (Fin 0.65) then ''PIT_SOON''
      else if dgt lapsSincePit (Fin 20) \<and> dgt cliffProb (Fin 0.50) then ''CONSIDER_PIT''
      else ''STAY_OUT'')"

definition max_triggered :: "(bool \<times> int) list \<Rightarrow> int" where
  "max_triggered rules = fold max (map snd (filter fst rules)) 0"

text \<open>
  The rules of the scorer read on doubles, as the program has them: \<open>round(cliffProb * 5)\<close>
  is the rounding of the double product, and a threshold is the double nearest to the
  decimal constant.
\<close>

fun rounded_score :: "double \<Rightarrow> int" where
  "rounded_score (Fin x) = round x"
| "rounded_score _ = 0"

definition tire_rules :: "double \<Rightarrow> double \<Rightarrow> (bool \<times> int) list" where
  "tire_rules ageRatio cliffProb =
     [(dge ageRatio (fl64 0.95), 10), (dge ageRatio (fl64 0.85), 9),
      (dge ageRatio (fl64 0.75), 7), (dge ageRatio (fl64 0.60), 4),
      (\<not> dge ageRatio (fl64 0.60), rounded_score (b64_mul cliffProb (Fin 5))),
      (dgt cliffProb (fl64 0.75), 10), (dgt cliffProb (fl64 0.65), 7),
      (dgt cliffProb (fl64 0.50), 4)]"

definition fuel_rules :: "double \<Rightarrow> (bool \<times> int) list" where
  "fuel_rules lapsFuelRemaining =
     [(dlt lapsFuelRemaining (Fin 5), 10), (dlt lapsFuelRemaining (Fin 10), 6),
      (\<not> dlt lapsFuelRemaining (Fin 10), 1)]"

definition strategy_rules ::
  "double \<Rightarrow> double \<Rightarrow> double \<Rightarrow> string \<Rightarrow> (bool \<times> int) list" where
  "strategy_rules position cliffProb lapsSincePit weather =
     [(dgt position (Fin 10) \<and> dgt cliffProb (fl64 0.50) \<and> dgt lapsSincePit (Fin 15), 6),
      (weather = ''WET'' \<or> weather = ''INTERMEDIATE'', 5),
      (\<not> (dgt position (Fin 10) \<and> dgt cliffProb (fl64 0.50) \<and> dgt lapsSincePit (Fin 15))
         \<and> \<not> (weather = ''WET'' \<or> weather = ''INTERMEDIATE''), 1)]"

text \<open>The inputs of the scorer are doubles.\<close>

definition binary64_inputs :: "current_state \<Rightarrow> bool" where
  "binary64_inputs cs =
     (is_binary64 (cs_lap cs) \<and> is_binary64 (cs_currentPosition cs) \<and>
      is_binary64 (cs_gapToLeader cs) \<and> is_binary64 (cs_cliffProb cs) \<and>
      is_binary64 (cs_fuel cs) \<and> is_binary64 (cs_fuelPerLap cs) \<and>
      is_binary64 (cs_lapsSincePit cs) \<and>
      (case cs_tireAge cs of None \<Rightarrow> True | Some v \<Rightarrow> is_binary64 v) \<and>
      (case cs_maxTireAge cs of None \<Rightarrow> True | Some v \<Rightarrow> is_binary64 v))"

section \<open>Properties of rounding to binary64\<close>

subsection \<open>Rounding on the reals\<close>

lemma round_even_of_int [simp]: "round_even (of_int n) = n"
  by (simp add: round_even_def)

lemma round_even_ge_floor: "\<lfloor>r\<rfloor> \<le> round_even r"
  by (simp add: round_even_def Let_def)

lemma round_even_le_floor1: "round_even r \<le> \<lfloor>r\<rfloor> + 1"
  by (simp add: round_even_def Let_def)

lemma round_even_mono:
  assumes "r \<le> s"
  shows "round_even r \<le> round_even s"
proof (cases "\<lfloor>r\<rfloor> = \<lfloor>s\<rfloor>")
  case True
  then show ?thesis
    using assms by (auto simp: round_even_def Let_def)
next
  case False
  with assms have "\<lfloor>r\<rfloor> < \<lfloor>s\<rfloor>" using floor_mono [OF assms] by linarith
  then have "\<lfloor>r\<rfloor> + 1 \<le> \<lfloor>s\<rfloor>" by simp
  with round_even_le_floor1 [of r] round_even_ge_floor [of s] show ?thesis by linarith
qed

lemma round_even_lower: "of_int n \<le> r \<Longrightarrow> n \<le> round_even r"
  using round_even_mono [of "of_int n" r] by simp

lemma round_even_upper: "r \<le> of_int n \<Longrightarrow> round_even r \<le> n"
  using round_even_mono [of r "of_int n"] by simp

lemma pow2_pos [simp]: "0 < (2::real) powi e"
  by simp

lemma pow2_mono: "a \<le> b \<Longrightarrow> (2::real) powi a \<le> 2 powi b"
  by (rule power_int_increasing) simp_all

lemma pow2_strict_mono: "a < b \<Longrightarrow> (2::real) powi a < 2 powi b"
  by (rule power_int_strict_increasing) simp_all

lemma pow2_less_cancel: "(2::real) powi a < 2 powi b \<Longrightarrow> a < b"
  using pow2_mono [of b a] by (cases "a < b") auto

lemma floor_log2:
  assumes "0 < (a::real)"
  shows "2 powi \<lfloor>log 2 a\<rfloor> \<le> a \<and> a < 2 powi (\<lfloor>log 2 a\<rfloor> + 1)"
proof -
  have "2 powr real_of_int \<lfloor>log 2 a\<rfloor> \<le> a \<and> a < 2 powr real_of_int (\<lfloor>log 2 a\<rfloor> + 1)"
    using floor_log_eq_powr_iff [of a 2 "\<lfloor>log 2 a\<rfloor>"] assms by simp
  then show ?thesis
    by (simp only: powr_real_of_int' [of 2, simplified])
qed


lemma binade_ge [simp]: "- 1022 \<le> binade x"
  by (simp add: binade_def)

lemma binade_abs [simp]: "binade \<bar>x\<bar> = binade x" and binade_minus [simp]: "binade (- x) = binade x"
  by (simp_all add: binade_def)

lemma binade_eqI:
  assumes "2 powi e \<le> \<bar>x\<bar>" and "\<bar>x\<bar> < 2 powi (e + 1)" and "- 1022 \<le> e"
  shows "binade x = e"
proof -
  have pos: "0 < \<bar>x\<bar>" using assms(1) pow2_pos [of e] by linarith
  have "2 powr real_of_int e \<le> \<bar>x\<bar> \<and> \<bar>x\<bar> < 2 powr real_of_int (e + 1)"
    using assms(1,2) by (simp only: powr_real_of_int' [of 2, simplified])
  then have "\<lfloor>log 2 \<bar>x\<bar>\<rfloor> = e"
    using floor_log_eq_powr_iff [of "\<bar>x\<bar>" 2 e] pos by simp
  then show ?thesis using assms(3) by (simp add: binade_def)
qed

lemma binade_normal:
  assumes "2 powi (- 1022) \<le> \<bar>x\<bar>"
  shows "2 powi binade x \<le> \<bar>x\<bar> \<and> \<bar>x\<bar> < 2 powi (binade x + 1)"
proof -
  have pos: "0 < \<bar>x\<bar>" using assms pow2_pos [of "- 1022"] by linarith
  note fl = floor_log2 [OF pos]
  have "2 powi (- 1022) < (2::real) powi (\<lfloor>log 2 \<bar>x\<bar>\<rfloor> + 1)" using assms fl by linarith
  then have "- 1022 < \<lfloor>log 2 \<bar>x\<bar>\<rfloor> + 1" by (rule pow2_less_cancel)
  then have "binade x = \<lfloor>log 2 \<bar>x\<bar>\<rfloor>" by (simp add: binade_def)
  with fl show ?thesis by simp
qed

lemma binade_subnormal:
  assumes "x \<noteq> 0" and "\<bar>x\<bar> < 2 powi (- 1022)"
  shows "binade x = - 1022"
proof -
  have pos: "0 < \<bar>x\<bar>" using assms(1) by simp
  note fl = floor_log2 [OF pos]
  have "(2::real) powi \<lfloor>log 2 \<bar>x\<bar>\<rfloor> < 2 powi (- 1022)" using assms(2) fl by linarith
  then have "\<lfloor>log 2 \<bar>x\<bar>\<rfloor> < - 1022" by (rule pow2_less_cancel)
  then show ?thesis by (simp add: binade_def)
qed

lemma binade_upper:
  assumes "x \<noteq> 0"
  shows "\<bar>x\<bar> < 2 powi (binade x + 1)"
proof (cases "2 powi (- 1022) \<le> \<bar>x\<bar>")
  case True
  then show ?thesis using binade_normal by blast
next
  case False
  then have lt: "\<bar>x\<bar> < 2 powi (- 1022)" by simp
  then have "binade x = - 1022" using assms by (intro binade_subnormal)
  moreover have "(2::real) powi (- 1022) < 2 powi (- 1022 + 1)" by (rule pow2_strict_mono) simp
  ultimately show ?thesis using lt by simp
qed

lemma binade_mono:
  assumes "x \<noteq> 0" and "\<bar>x\<bar> \<le> \<bar>y\<bar>"
  shows "binade x \<le> binade y"
proof -
  have "0 < \<bar>x\<bar>" using assms(1) by simp
  then have "log 2 \<bar>x\<bar> \<le> log 2 \<bar>y\<bar>" using assms(2) by simp
  then have "\<lfloor>log 2 \<bar>x\<bar>\<rfloor> \<le> \<lfloor>log 2 \<bar>y\<bar>\<rfloor>" by (rule floor_mono)
  then show ?thesis by (simp add: binade_def)
qed

lemma ulp_pos [simp]: "0 < ulp x"
  by (simp add: ulp_def)

lemma ulp_nonneg [simp]: "0 \<le> ulp x"
  using ulp_pos [of x] by linarith

lemma ulp_neq_zero [simp]: "ulp x \<noteq> 0"
  using ulp_pos [of x] by linarith

lemma ulp_abs [simp]: "ulp \<bar>x\<bar> = ulp x" and ulp_minus [simp]: "ulp (- x) = ulp x"
  by (simp_all add: ulp_def)

lemma pow2_split: "(2::real) powi (e + 1) = 2 powi (e - 52) * 2 powi 53"
  and pow2_split0: "(2::real) powi e = 2 powi (e - 52) * 2 powi 52"
proof -
  have "(2::real) powi ((e - 52) + 53) = 2 powi (e - 52) * 2 powi 53"
    by (rule power_int_add) simp
  then show "(2::real) powi (e + 1) = 2 powi (e - 52) * 2 powi 53" by (simp add: algebra_simps)
  have "(2::real) powi ((e - 52) + 52) = 2 powi (e - 52) * 2 powi 52"
    by (rule power_int_add) simp
  then show "(2::real) powi e = 2 powi (e - 52) * 2 powi 52" by simp
qed

text \<open>The scaled magnitude and its rounding.\<close>

lemma scaled_upper:
  assumes "x \<noteq> 0"
  shows "\<bar>x\<bar> / ulp x < 2 ^ 53"
proof -
  have "\<bar>x\<bar> < ulp x * 2 powi 53"
    using binade_upper [OF assms] pow2_split [of "binade x"] by (simp add: ulp_def)
  then show ?thesis by (simp add: pos_divide_less_eq mult.commute)
qed

lemma scaled_lower:
  assumes "2 powi (- 1022) \<le> \<bar>x\<bar>"
  shows "2 ^ 52 \<le> \<bar>x\<bar> / ulp x"
proof -
  have "ulp x * 2 powi 52 \<le> \<bar>x\<bar>"
    using binade_normal [OF assms] pow2_split0 [of "binade x"] by (simp add: ulp_def)
  then show ?thesis by (simp add: pos_le_divide_eq mult.commute)
qed

lemma rounded_upper:
  assumes "x \<noteq> 0"
  shows "round_even (\<bar>x\<bar> / ulp x) \<le> 2 ^ 53"
proof -
  have "\<bar>x\<bar> / ulp x \<le> of_int (2 ^ 53)" using scaled_upper [OF assms] by simp
  then show ?thesis by (rule round_even_upper)
qed

lemma rounded_lower:
  assumes "2 powi (- 1022) \<le> \<bar>x\<bar>"
  shows "2 ^ 52 \<le> round_even (\<bar>x\<bar> / ulp x)"
proof -
  have "of_int (2 ^ 52) \<le> \<bar>x\<bar> / ulp x" using scaled_lower [OF assms] by simp
  then show ?thesis by (rule round_even_lower)
qed

lemma rounded_nonneg: "0 \<le> round_even (\<bar>x\<bar> / ulp x)"
proof -
  have "0 \<le> \<bar>x\<bar> / ulp x" by (intro divide_nonneg_pos) simp_all
  then have "of_int 0 \<le> \<bar>x\<bar> / ulp x" by simp
  then show ?thesis by (rule round_even_lower)
qed


text \<open>Rounding to nearest: sign, range, monotonicity.\<close>

lemma rn_zero [simp]: "rn 0 = 0"
  by (simp add: rn_def)

lemma rn_minus: "rn (- x) = - rn x"
  by (simp add: rn_def sgn_minus)

lemma rn_pos:
  assumes "0 < x"
  shows "rn x = ulp x * of_int (round_even (x / ulp x))"
  using assms by (simp add: rn_def)

lemma rn_nonneg:
  assumes "0 \<le> x"
  shows "0 \<le> rn x"
proof (cases "x = 0")
  case True
  then show ?thesis by simp
next
  case False
  with assms have x: "0 < x" by simp
  have "0 \<le> ulp x * of_int (round_even (\<bar>x\<bar> / ulp x))"
    using rounded_nonneg [of x] by (intro mult_nonneg_nonneg) simp_all
  then show ?thesis using x by (simp add: rn_pos)
qed

lemma rn_upper:
  assumes "0 < x"
  shows "rn x \<le> 2 powi (binade x + 1)"
proof -
  have "of_int (round_even (\<bar>x\<bar> / ulp x)) \<le> (2::real) ^ 53"
    using rounded_upper [of x] assms
    by (metis less_irrefl of_int_le_iff of_int_numeral of_int_power)
  then have "ulp x * of_int (round_even (\<bar>x\<bar> / ulp x)) \<le> ulp x * 2 ^ 53"
    by (intro mult_left_mono) simp_all
  then show ?thesis
    using assms pow2_split [of "binade x"] by (simp add: rn_pos ulp_def)
qed

lemma rn_lower:
  assumes "2 powi (- 1022) \<le> x"
  shows "2 powi binade x \<le> rn x"
proof -
  have x: "0 < x" using assms pow2_pos [of "- 1022"] by linarith
  have "(2::real) ^ 52 \<le> of_int (round_even (\<bar>x\<bar> / ulp x))"
    using rounded_lower [of x] assms x
    by (metis abs_of_pos of_int_le_iff of_int_numeral of_int_power)
  then have "ulp x * 2 ^ 52 \<le> ulp x * of_int (round_even (\<bar>x\<bar> / ulp x))"
    by (intro mult_left_mono) simp_all
  then show ?thesis
    using x pow2_split0 [of "binade x"] by (simp add: rn_pos ulp_def)
qed

lemma rn_mono_pos:
  assumes "0 < x" and "x \<le> y"
  shows "rn x \<le> rn y"
proof (cases "binade x = binade y")
  case True
  then have u: "ulp x = ulp y" by (simp add: ulp_def)
  have "x / ulp y \<le> y / ulp y" using assms(2) by (intro divide_right_mono) simp_all
  then have "round_even (x / ulp y) \<le> round_even (y / ulp y)" by (rule round_even_mono)
  then have "ulp y * of_int (round_even (x / ulp y)) \<le> ulp y * of_int (round_even (y / ulp y))"
    by (intro mult_left_mono) simp_all
  then show ?thesis using assms u by (simp add: rn_pos)
next
  case False
  have y: "0 < y" using assms by linarith
  have "binade x \<le> binade y" using assms by (intro binade_mono) simp_all
  with False have lt: "binade x + 1 \<le> binade y" by simp
  then have "- 1022 < binade y" using binade_ge [of x] by linarith
  then have "\<not> \<bar>y\<bar> < 2 powi (- 1022)"
    using binade_subnormal [of y] y by auto
  then have ny: "2 powi (- 1022) \<le> y" using y by simp
  have "rn x \<le> 2 powi (binade x + 1)" using assms(1) by (rule rn_upper)
  also have "\<dots> \<le> 2 powi binade y" using lt by (rule pow2_mono)
  also have "\<dots> \<le> rn y" using ny by (rule rn_lower)
  finally show ?thesis .
qed

lemma rn_mono:
  assumes "x \<le> y"
  shows "rn x \<le> rn y"
proof -
  consider "0 < x" | "y < 0" | "x \<le> 0" "0 \<le> y" by linarith
  then show ?thesis
  proof cases
    case 1
    then show ?thesis using assms by (rule rn_mono_pos)
  next
    case 2
    then have "0 < - y" "- y \<le> - x" using assms by simp_all
    then have "rn (- y) \<le> rn (- x)" by (rule rn_mono_pos)
    then show ?thesis by (simp add: rn_minus)
  next
    case 3
    have "0 \<le> rn (- x)" using 3(1) by (intro rn_nonneg) simp
    then have "rn x \<le> 0" by (simp add: rn_minus)
    moreover have "0 \<le> rn y" using 3(2) by (rule rn_nonneg)
    ultimately show ?thesis by linarith
  qed
qed


text \<open>Numbers with at most 53 significant bits are not changed.\<close>

lemma rn_exact_pos:
  assumes "0 < n" and "n < 2 ^ 53" and "- 1074 \<le> j"
  shows "rn (of_int n * 2 powi j) = of_int n * 2 powi j"
proof -
  define x :: real where "x = of_int n * 2 powi j"
  have x: "0 < x" using assms(1) by (simp add: x_def)
  have "of_int n < (2::real) ^ 53" using assms(2)
    by (metis of_int_less_iff of_int_numeral of_int_power)
  then have "x < 2 ^ 53 * 2 powi j" by (simp add: x_def)
  also have "\<dots> = 2 powi (53 + j)" by (simp add: power_int_add)
  finally have xu: "x < 2 powi (53 + j)" .
  have le: "binade x - 52 \<le> j"
  proof (cases "2 powi (- 1022) \<le> \<bar>x\<bar>")
    case True
    then have "2 powi binade x \<le> x" using binade_normal [of x] x by simp
    with xu have "(2::real) powi binade x < 2 powi (53 + j)" by linarith
    then have "binade x < 53 + j" by (rule pow2_less_cancel)
    then show ?thesis by simp
  next
    case False
    then have "binade x = - 1022" using binade_subnormal [of x] x by simp
    then show ?thesis using assms(3) by simp
  qed
  define k where "k = nat (j - (binade x - 52))"
  have k: "j = (binade x - 52) + int k" using le by (simp add: k_def)
  have pj: "2 powi j = ulp x * 2 ^ k"
    unfolding ulp_def by (subst k) (simp add: power_int_add)
  have "x = of_int n * 2 powi j" by (rule x_def)
  also have "\<dots> = of_int n * (ulp x * 2 ^ k)" by (simp only: pj)
  also have "\<dots> = ulp x * of_int (n * 2 ^ k)" by simp
  finally have xe: "x = ulp x * of_int (n * 2 ^ k)" .
  have "ulp x * of_int (n * 2 ^ k) / ulp x = of_int (n * 2 ^ k)"
    using ulp_pos [of x] by simp
  with xe have sc: "x / ulp x = of_int (n * 2 ^ k)" by metis
  have "rn x = ulp x * of_int (round_even (x / ulp x))" using x by (rule rn_pos)
  also have "\<dots> = ulp x * of_int (n * 2 ^ k)" by (simp only: sc round_even_of_int)
  also have "\<dots> = x" using xe by simp
  finally show ?thesis by (simp add: x_def)
qed

lemma rn_exact:
  assumes "\<bar>n\<bar> < 2 ^ 53" and "- 1074 \<le> j"
  shows "rn (of_int n * 2 powi j) = of_int n * 2 powi j"
proof -
  consider "0 < n" | "n = 0" | "n < 0" by linarith
  then show ?thesis
  proof cases
    case 1
    then show ?thesis using assms by (intro rn_exact_pos) simp_all
  next
    case 2
    then show ?thesis by simp
  next
    case 3
    then have "rn (of_int (- n) * 2 powi j) = of_int (- n) * 2 powi j"
      using assms by (intro rn_exact_pos) simp_all
    then have "rn (- (of_int n * 2 powi j)) = - (of_int n * 2 powi j)" by simp
    then show ?thesis by (simp add: rn_minus)
  qed
qed

lemma rn_of_int:
  assumes "\<bar>n\<bar> < 2 ^ 53"
  shows "rn (of_int n) = of_int n"
  using rn_exact [OF assms, of 0] by simp

lemma rn_idem_pos:
  assumes "0 < x"
  shows "rn (rn x) = rn x"
proof -
  define N where "N = round_even (\<bar>x\<bar> / ulp x)"
  have r: "rn x = of_int N * 2 powi (binade x - 52)"
    using assms by (simp add: rn_pos N_def ulp_def mult.commute)
  have N: "0 \<le> N" "N \<le> 2 ^ 53"
    using rounded_nonneg [of x] rounded_upper [of x] assms by (simp_all add: N_def)
  show ?thesis
  proof (cases "N = 2 ^ 53")
    case True
    have "rn x = 2 powi (binade x + 1)"
      using pow2_split [of "binade x"] by (simp add: r True mult.commute)
    moreover have "- 1074 \<le> binade x + 1" using binade_ge [of x] by linarith
    then have "rn (of_int 1 * 2 powi (binade x + 1)) = of_int 1 * 2 powi (binade x + 1)"
      by (intro rn_exact) simp_all
    ultimately show ?thesis by simp
  next
    case False
    with N have "\<bar>N\<bar> < 2 ^ 53" by simp
    moreover have "- 1074 \<le> binade x - 52" using binade_ge [of x] by linarith
    ultimately have "rn (of_int N * 2 powi (binade x - 52)) = of_int N * 2 powi (binade x - 52)"
      by (intro rn_exact)
    then show ?thesis by (simp add: r)
  qed
qed

lemma rn_idem [simp]: "rn (rn x) = rn x"
proof -
  consider "0 < x" | "x = 0" | "x < 0" by linarith
  then show ?thesis
  proof cases
    case 1
    then show ?thesis by (rule rn_idem_pos)
  next
    case 2
    then show ?thesis by simp
  next
    case 3
    then have "rn (rn (- x)) = rn (- x)" by (intro rn_idem_pos) simp
    then show ?thesis by (simp add: rn_minus)
  qed
qed

text \<open>Evaluating the rounding of a given number from its binade.\<close>

lemma rn_eval:
  assumes "0 < x" and "2 powi e \<le> x" and "x < 2 powi (e + 1)" and "- 1022 \<le> e"
  shows "rn x = 2 powi (e - 52) * of_int (round_even (x / 2 powi (e - 52)))"
proof -
  have "binade x = e" using assms by (intro binade_eqI) simp_all
  then show ?thesis using assms(1) by (simp add: rn_pos ulp_def)
qed

subsection \<open>Rounding to a double\<close>

lemma overflow_threshold_pos [simp]: "0 < overflow_threshold"
  by (simp add: overflow_threshold_def)

lemma overflow_threshold_large: "2 ^ 53 < overflow_threshold"
proof -
  have "(2::real) powi 53 < 2 powi 1024" by (intro pow2_strict_mono) simp
  then show ?thesis unfolding overflow_threshold_def by simp
qed

lemma fl64_cases: "(\<exists>y. fl64 x = Fin y) \<or> fl64 x = PInf \<or> fl64 x = NInf"
  by (simp add: fl64_def signed_inf_def)

lemma fl64_not_NaN [simp]: "fl64 x \<noteq> NaN"
  using fl64_cases [of x] by auto

lemma dle_PInf: "d \<noteq> NaN \<Longrightarrow> dle d PInf"
  by (cases d) simp_all

lemma dle_NInf: "d \<noteq> NaN \<Longrightarrow> dle NInf d"
  by (cases d) simp_all

lemma fl64_mono:
  assumes "x \<le> y"
  shows "dle (fl64 x) (fl64 y)"
proof -
  note m = rn_mono [OF assms]
  show ?thesis
  proof (cases "overflow_threshold \<le> \<bar>rn y\<bar>")
    case True
    show ?thesis
    proof (cases "0 < y")
      case True
      then have "fl64 y = PInf" using \<open>overflow_threshold \<le> \<bar>rn y\<bar>\<close> by (simp add: fl64_def signed_inf_def)
      then show ?thesis by (simp add: dle_PInf)
    next
      case False
      then have "rn y \<le> 0" using rn_nonneg [of "- y"] by (simp add: rn_minus)
      with True have ry: "rn y \<le> - (overflow_threshold)" by linarith
      from False have fy: "fl64 y = NInf" using True by (simp add: fl64_def signed_inf_def)
      have "rn x \<le> - (overflow_threshold)" using m ry by linarith
      moreover have "\<not> 0 < x" using False assms by linarith
      ultimately have "fl64 x = NInf"
        using overflow_threshold_pos by (simp add: fl64_def signed_inf_def)
      with fy show ?thesis by simp
    qed
  next
    case False
    then have fy: "fl64 y = Fin (rn y)" by (simp add: fl64_def)
    show ?thesis
    proof (cases "overflow_threshold \<le> \<bar>rn x\<bar>")
      case True
      have "\<not> 0 < x"
      proof
        assume "0 < x"
        then have "0 \<le> rn x" by (intro rn_nonneg) simp
        with True have "overflow_threshold \<le> rn x" by simp
        with m False show False by simp
      qed
      then have "fl64 x = NInf" using True by (simp add: fl64_def signed_inf_def)
      with fy show ?thesis by simp
    next
      case False
      then have "fl64 x = Fin (rn x)" by (simp add: fl64_def)
      with fy m show ?thesis by simp
    qed
  qed
qed

lemma fl64_exact:
  assumes "\<bar>n\<bar> < 2 ^ 53" and "- 1074 \<le> j"
    and "\<bar>real_of_int n * 2 powi j\<bar> < overflow_threshold"
  shows "fl64 (of_int n * 2 powi j) = Fin (of_int n * 2 powi j)"
  using rn_exact [OF assms(1,2)] assms(3) by (simp add: fl64_def)

lemma fl64_of_int:
  assumes "\<bar>n\<bar> < 2 ^ 53"
  shows "fl64 (of_int n) = Fin (of_int n)"
proof -
  have "\<bar>real_of_int n\<bar> < 2 ^ 53" using assms
    by (metis of_int_abs of_int_less_iff of_int_numeral of_int_power)
  then have "\<bar>real_of_int n * 2 powi 0\<bar> < overflow_threshold"
    using overflow_threshold_large by simp
  from fl64_exact [OF assms _ this] show ?thesis by simp
qed

lemma fl64_numeral [simp]:
  "fl64 0 = Fin 0" "fl64 1 = Fin 1" "fl64 2 = Fin 2" "fl64 5 = Fin 5" "fl64 10 = Fin 10"
  using fl64_of_int [of 0] fl64_of_int [of 1] fl64_of_int [of 2] fl64_of_int [of 5]
    fl64_of_int [of 10]
  by simp_all

lemma fl64_idem: "fl64 x = Fin y \<Longrightarrow> fl64 y = Fin y"
  by (auto simp: fl64_def signed_inf_def split: if_splits)

lemma round64_fl64 [simp]: "round64 (fl64 x) = fl64 x"
  using fl64_cases [of x] by (auto simp: round64_def fl64_idem)

lemma fl64_between:
  assumes "fl64 a = Fin a" and "fl64 b = Fin b" and "a \<le> x" and "x \<le> b"
  shows "\<exists>y. fl64 x = Fin y \<and> a \<le> y \<and> y \<le> b"
proof -
  have l: "dle (Fin a) (fl64 x)" using fl64_mono [OF assms(3)] assms(1) by simp
  have u: "dle (fl64 x) (Fin b)" using fl64_mono [OF assms(4)] assms(2) by simp
  from l u show ?thesis by (cases "fl64 x") simp_all
qed


lemma round_even_eqI:
  assumes "of_int n - 1 / 2 < r" and "r < of_int n + 1 / 2"
  shows "round_even r = n"
proof -
  have "real_of_int \<lfloor>r\<rfloor> < of_int n + 1" using of_int_floor_le [of r] assms(2) by linarith
  then have "real_of_int \<lfloor>r\<rfloor> < of_int (n + 1)" by simp
  then have u: "\<lfloor>r\<rfloor> \<le> n" by (simp only: of_int_less_iff)
  have "real_of_int n - 1 < of_int \<lfloor>r\<rfloor> + 1" using floor_correct [of r] assms(1) by linarith
  then have "real_of_int (n - 1) < of_int (\<lfloor>r\<rfloor> + 1)" by simp
  then have l: "n - 1 \<le> \<lfloor>r\<rfloor>" by (simp only: of_int_less_iff)
  from u l consider "\<lfloor>r\<rfloor> = n" | "\<lfloor>r\<rfloor> = n - 1" by linarith
  then show ?thesis
  proof cases
    case 1
    then have "r - of_int \<lfloor>r\<rfloor> < 1 / 2" using assms(2) by simp
    then show ?thesis using 1 by (simp add: round_even_def)
  next
    case 2
    then have "1 / 2 < r - of_int \<lfloor>r\<rfloor>" using assms(1) by simp
    then show ?thesis using 2 by (simp add: round_even_def)
  qed
qed

lemma rn_one_plus_tiny:
  assumes "0 \<le> e" and "e \<le> 2 powi (- 54)"
  shows "rn (1 + e) = 1"
proof -
  have small: "(2::real) powi (- 54) * 2 powi 52 = 2 powi (- 2)"
    using power_int_add [of "2::real" "- 54" 52] by simp
  have "e * 2 powi 52 \<le> 2 powi (- 54) * 2 powi 52"
    using assms(2) by (intro mult_right_mono) simp_all
  then have q: "e * 2 powi 52 \<le> 1 / 4" unfolding small by (simp add: power_int_minus)
  have q0: "0 \<le> e * 2 powi 52" using assms(1) by simp
  have e1: "e < 1"
  proof -
    have "(2::real) powi (- 54) < 2 powi 0" by (intro pow2_strict_mono) simp
    with assms(2) show ?thesis by simp
  qed
  have sc: "(1 + e) / 2 powi (0 - 52) = of_int (2 ^ 52) + e * 2 powi 52"
    by (simp add: power_int_minus field_simps)
  have re: "round_even ((1 + e) / 2 powi (0 - 52)) = 2 ^ 52"
    unfolding sc using q q0 by (intro round_even_eqI) linarith+
  have "rn (1 + e) = 2 powi (0 - 52) * of_int (round_even ((1 + e) / 2 powi (0 - 52)))"
    using assms(1) e1 by (intro rn_eval) simp_all
  then show ?thesis unfolding re by (simp add: power_int_minus)
qed

lemma rn_one_minus_tiny:
  assumes "0 \<le> e" and "e \<le> 2 powi (- 55)"
  shows "rn (1 - e) = 1"
proof (cases "e = 0")
  case True
  then show ?thesis using rn_of_int [of 1] by simp
next
  case False
  then have e0: "0 < e" using assms(1) by simp
  have small: "(2::real) powi (- 55) * 2 powi 53 = 2 powi (- 2)"
    using power_int_add [of "2::real" "- 55" 53] by simp
  have "e * 2 powi 53 \<le> 2 powi (- 55) * 2 powi 53"
    using assms(2) by (intro mult_right_mono) simp_all
  then have q: "e * 2 powi 53 \<le> 1 / 4" unfolding small by (simp add: power_int_minus)
  have q0: "0 \<le> e * 2 powi 53" using assms(1) by simp
  have e1: "e \<le> 1 / 2"
  proof -
    have "(2::real) powi (- 55) \<le> 2 powi (- 1)" by (intro pow2_mono) simp
    with assms(2) show ?thesis by (simp add: power_int_minus)
  qed
  have sc: "(1 - e) / 2 powi (- 1 - 52) = of_int (2 ^ 53) - e * 2 powi 53"
    by (simp add: power_int_minus field_simps)
  have re: "round_even ((1 - e) / 2 powi (- 1 - 52)) = 2 ^ 53"
    unfolding sc using q q0 by (intro round_even_eqI) linarith+
  have "rn (1 - e) = 2 powi (- 1 - 52) * of_int (round_even ((1 - e) / 2 powi (- 1 - 52)))"
    using e0 e1 by (intro rn_eval) (simp_all add: power_int_minus)
  then show ?thesis unfolding re by (simp add: power_int_minus)
qed

lemma fl64_Fin_iff: "fl64 x = Fin y \<longleftrightarrow> \<bar>rn x\<bar> < overflow_threshold \<and> y = rn x"
  by (auto simp: fl64_def signed_inf_def)

lemma fl64_of_rn:
  assumes "rn x = y" and "\<bar>y\<bar> < 2 ^ 53"
  shows "fl64 x = Fin y"
  using assms overflow_threshold_large by (simp add: fl64_Fin_iff)

lemma fl64_dyadic [simp]:
  "fl64 (1 / 2) = Fin (1 / 2)" "fl64 (3 / 2) = Fin (3 / 2)" "fl64 (7 / 2) = Fin (7 / 2)"
proof -
  have "fl64 (of_int 1 * 2 powi (- 1)) = Fin (of_int 1 * 2 powi (- 1))"
    using overflow_threshold_large by (intro fl64_exact) (simp_all add: power_int_minus)
  then show "fl64 (1 / 2) = Fin (1 / 2)" by (simp add: power_int_minus)
  have "fl64 (of_int 3 * 2 powi (- 1)) = Fin (of_int 3 * 2 powi (- 1))"
    using overflow_threshold_large by (intro fl64_exact) (simp_all add: power_int_minus)
  then show "fl64 (3 / 2) = Fin (3 / 2)" by (simp add: power_int_minus)
  have "fl64 (of_int 7 * 2 powi (- 1)) = Fin (of_int 7 * 2 powi (- 1))"
    using overflow_threshold_large by (intro fl64_exact) (simp_all add: power_int_minus)
  then show "fl64 (7 / 2) = Fin (7 / 2)" by (simp add: power_int_minus)
qed

section \<open>Properties of the Kalman filter\<close>

subsection \<open>The filter on finite numbers\<close>

lemma one_plus_exp_nonzero: "1 + exp (y::real) \<noteq> 0"
  using exp_gt_zero [of y] by linarith

lemma sigmoid_cliff_Fin:
  "sigmoid_cliff (Fin x) (Fin t) (Fin s) = Fin (1 / (1 + exp (- s * (x - t))))"
  by (simp add: sigmoid_cliff_def dsub_def one_plus_exp_nonzero)


lemma update_Fin:
  assumes "P + Q + R \<noteq> 0"
  shows "update \<lparr> flt_x = Fin x, flt_P = Fin P, flt_Q = Fin Q, flt_R = Fin R,
                  flt_wear_rate = Fin w \<rparr> (Fin m)
     = (\<lparr> flt_x = Fin (x + w + (P + Q) / (P + Q + R) * (m - (x + w))),
          flt_P = Fin ((1 - (P + Q) / (P + Q + R)) * (P + Q)),
          flt_Q = Fin Q, flt_R = Fin R, flt_wear_rate = Fin w \<rparr>,
        Fin (x + w + (P + Q) / (P + Q + R) * (m - (x + w))))"
  using assms by (simp add: update_def kalman_gain_def dsub_def Let_def)

text \<open>The addon and the class compute the same step.\<close>

lemma UpdateState_update:
  "UpdateState (flt_x f) (flt_P f) (flt_Q f) (flt_R f) (flt_wear_rate f) m =
     \<lparr> res_x = snd (update f m), res_P = flt_P (fst (update f m)),
       res_cliffProb = calculateCliffProbability (fst (update f m)) (Fin 0.60) (Fin 15) \<rparr>"
  by (simp add: UpdateState_def update_def calculateCliffProbability_def Let_def)


text \<open>Comparing a logistic value with a constant.\<close>

lemma frac_less:
  assumes "0 < (e::real)" and "1 < c * (1 + e)"
  shows "1 / (1 + e) < c"
proof -
  have "0 < 1 + e" using assms(1) by linarith
  then show ?thesis using assms(2) by (simp add: pos_divide_less_eq)
qed

lemma frac_greater:
  assumes "0 < (e::real)" and "c * (1 + e) < 1"
  shows "c < 1 / (1 + e)"
proof -
  have "0 < 1 + e" using assms(1) by linarith
  then show ?thesis using assms(2) by (simp add: pos_less_divide_eq)
qed

lemma sigmoid_below_half:
  assumes "x < t" and "0 < s"
  shows "1 / (1 + exp (- s * (x - t))) < (1 / 2 :: real)"
proof -
  from assms have "0 < - s * (x - t)" by (simp add: mult_pos_neg)
  then have "1 < exp (- s * (x - t))" by simp
  then show ?thesis by (intro frac_less) simp_all
qed

subsection \<open>The telemetry run of main\<close>

lemma main_loop_fst: "fst (main_loop f t s ms) = foldl (\<lambda>f m. fst (update f m)) f ms"
  by (induction ms arbitrary: f) (simp_all add: Let_def case_prod_beta)

lemma main_loop_last:
  "ms \<noteq> [] \<Longrightarrow> last (snd (main_loop f t s ms)) =
     (flt_x (fst (main_loop f t s ms)), calculateCliffProbability (fst (main_loop f t s ms)) t s)"
proof (induction ms arbitrary: f)
  case Nil
  then show ?case by simp
next
  case (Cons m ms)
  show ?case
  proof (cases ms)
    case Nil
    then show ?thesis
      by (simp add: Let_def case_prod_beta update_def)
  next
    case (Cons m' ms')
    then have "ms \<noteq> []" by simp
    from Cons.IH [OF this, of "fst (update f m)"] Cons show ?thesis
      by (simp add: Let_def case_prod_beta)
  qed
qed

lemma main_final:
  "fst main = \<lparr> flt_x = Fin (7861954289491556011 / 14440392409659867755),
       flt_P = Fin (424982359319176001 / 5776156963863947102),
       flt_Q = Fin 0.01, flt_R = Fin 0.5, flt_wear_rate = Fin 0.05 \<rparr>"
  by (simp add: main_loop_fst main_def noisy_telemetry_def TireDegradationFilter_def update_Fin)

lemma main_last:
  "last (snd main) =
     (Fin (7861954289491556011 / 14440392409659867755),
      Fin (1 / (1 + exp (- 15 * (7861954289491556011 / 14440392409659867755 - 0.60)))))"
proof -
  have "noisy_telemetry \<noteq> []" by (simp add: noisy_telemetry_def)
  then have "last (snd main) =
      (flt_x (fst main), calculateCliffProbability (fst main) (Fin 0.60) (Fin 15))"
    unfolding main_def by (rule main_loop_last)
  then show ?thesis
    by (simp add: main_final calculateCliffProbability_def sigmoid_cliff_Fin)
qed

text \<open>
  C1 (as stated, refuted). The claim: after the ten readings of \<^verbatim>\<open>main\<close>, fed to the filter
  \<^verbatim>\<open>(0.0, 1.0, 0.01, 0.5, 0.05)\<close> with threshold 0.60 and steepness 15, the last smoothed
  estimate exceeds 0.55 and the last cliff probability exceeds 0.5. On the code the last
  row of the run has neither: the estimate is not above 0.55 and the cliff probability is
  not above 0.5.
\<close>

theorem scenario_B_counterexample:
  "\<not> dgt (fst (last (snd main))) (Fin 0.55) \<and> \<not> dgt (snd (last (snd main))) (Fin 0.5)"
proof -
  have "1 / (1 + exp (- 15 * (7861954289491556011 / 14440392409659867755 - 0.60)))
          < (1 / 2 :: real)"
    by (rule sigmoid_below_half) simp_all
  then show ?thesis
    by (simp add: main_last dgt_def)
qed

text \<open>
  C1 (amended). After the ten readings the last smoothed estimate lies strictly between
  0.544 and 0.545 (it is about 0.5444, still below the threshold 0.60) and the last cliff
  probability lies strictly between 0.25 and 0.32 (about 0.30).
\<close>

theorem scenario_B_values:
  "dlt (Fin 0.544) (fst (last (snd main))) \<and> dlt (fst (last (snd main))) (Fin 0.545) \<and>
   dlt (Fin 0.25) (snd (last (snd main))) \<and> dlt (snd (last (snd main))) (Fin 0.32)"
proof -
  define a :: real where "a = - 15 * (7861954289491556011 / 14440392409659867755 - 0.60)"
  have a0: "0 \<le> a" and a1: "a < 1" by (simp_all add: a_def)
  have "1 + a + a\<^sup>2 / 2 \<le> exp a" using a0 by (rule exp_lower_Taylor_quadratic)
  moreover have "2.125 < 1 + a + a\<^sup>2 / 2" by (simp add: a_def power2_eq_square)
  ultimately have lo: "2.125 < exp a" by linarith
  have "exp a < exp 1" using a1 by simp
  then have hi: "exp a < 3" using exp_le by linarith
  have "1 / (1 + exp a) < 0.32" using lo by (intro frac_less) simp_all
  moreover have "0.25 < 1 / (1 + exp a)" using hi by (intro frac_greater) simp_all
  ultimately show ?thesis
    by (simp add: main_last a_def)
qed

subsection \<open>A single update from the initial state\<close>



subsection \<open>Rounded operations on finite operands\<close>

lemma b64_Fin [simp]:
  "b64_add (Fin a) (Fin b) = fl64 (a + b)"
  "b64_sub (Fin a) (Fin b) = fl64 (a - b)"
  "b64_mul (Fin a) (Fin b) = fl64 (a * b)"
  "b64_exp (Fin a) = fl64 (exp a)"
  by (simp_all add: b64_add_def b64_sub_def b64_mul_def b64_exp_def dsub_def round64_def)

lemma b64_div_Fin [simp]: "b \<noteq> 0 \<Longrightarrow> b64_div (Fin a) (Fin b) = fl64 (a / b)"
  by (simp add: b64_div_def round64_def)

lemma dle_refl_iff: "dle d d \<longleftrightarrow> d \<noteq> NaN"
  by (cases d) simp_all

lemma dle_trans: "dle a b \<Longrightarrow> dle b c \<Longrightarrow> dle a c"
  by (cases a; cases b; cases c) simp_all

lemma dle_fl64_refl [simp]: "dle (fl64 x) (fl64 x)"
  by (simp add: dle_refl_iff)

lemma fl64_nonneg: "0 \<le> x \<Longrightarrow> dle (Fin 0) (fl64 x)"
  using fl64_mono [of 0 x] by simp

lemma fl64_ge_one: "1 \<le> x \<Longrightarrow> dle (Fin 1) (fl64 x)"
  using fl64_mono [of 1 x] by simp

text \<open>Each stage of the logistic expression keeps the order, or reverses it.\<close>

lemma b64_sub_mono:
  assumes "x \<le> y"
  shows "dle (b64_sub (Fin x) (Fin t)) (b64_sub (Fin y) (Fin t))"
  using assms by (simp add: fl64_mono)

lemma b64_mul_neg_antimono:
  assumes "0 < s" and "dle d1 d2"
  shows "dle (b64_mul (Fin (- s)) d2) (b64_mul (Fin (- s)) d1)"
proof (cases d1)
  case (Fin a)
  show ?thesis
  proof (cases d2)
    case (Fin b)
    with \<open>d1 = Fin a\<close> assms have "- s * b \<le> - s * a" by simp
    then show ?thesis using Fin \<open>d1 = Fin a\<close> by (simp add: fl64_mono)
  next
    case PInf
    then show ?thesis using \<open>d1 = Fin a\<close> assms(1)
      by (simp add: b64_mul_def round64_def signed_inf_def dle_NInf)
  qed (use assms \<open>d1 = Fin a\<close> in simp_all)
next
  case PInf
  then show ?thesis using assms
    by (cases d2) (simp_all add: b64_mul_def round64_def signed_inf_def)
next
  case NInf
  then show ?thesis using assms
    by (cases d2) (simp_all add: b64_mul_def round64_def signed_inf_def dle_PInf)
next
  case NaN
  then show ?thesis using assms by simp
qed

lemma b64_exp_mono:
  assumes "dle d1 d2"
  shows "dle (b64_exp d1) (b64_exp d2)"
proof (cases d1)
  case (Fin a)
  then show ?thesis using assms
    by (cases d2) (simp_all add: fl64_mono, simp_all add: b64_exp_def round64_def dle_PInf)
next
  case PInf
  then show ?thesis using assms by (cases d2) (simp_all add: b64_exp_def round64_def)
next
  case NInf
  then show ?thesis using assms
    by (cases d2) (simp_all add: b64_exp_def round64_def fl64_nonneg)
next
  case NaN
  then show ?thesis using assms by simp
qed

lemma b64_exp_nonneg:
  assumes "d \<noteq> NaN"
  shows "dle (Fin 0) (b64_exp d)"
  using assms by (cases d) (simp_all add: b64_exp_def round64_def fl64_nonneg)

lemma b64_mul_not_NaN:
  assumes "0 < s" and "d \<noteq> NaN"
  shows "b64_mul (Fin (- s)) d \<noteq> NaN"
  using assms by (cases d) (simp_all add: b64_mul_def round64_def signed_inf_def)

lemma b64_add_one_mono:
  assumes "dle (Fin 0) e1" and "dle e1 e2"
  shows "dle (Fin 1) (b64_add (Fin 1) e1) \<and> dle (b64_add (Fin 1) e1) (b64_add (Fin 1) e2)"
proof (cases e1)
  case (Fin a)
  with assms(1) have a: "0 \<le> a" by simp
  show ?thesis
  proof (cases e2)
    case (Fin b)
    with \<open>e1 = Fin a\<close> assms(2) a show ?thesis by (simp add: fl64_mono fl64_ge_one)
  next
    case PInf
    with \<open>e1 = Fin a\<close> a show ?thesis
      by (simp add: fl64_ge_one) (simp add: b64_add_def round64_def dle_PInf)
  qed (use assms \<open>e1 = Fin a\<close> in simp_all)
next
  case PInf
  then show ?thesis using assms by (cases e2) (simp_all add: b64_add_def round64_def)
qed (use assms in simp_all)

lemma b64_recip_antimono:
  assumes "dle (Fin 1) a1" and "dle a1 a2"
  shows "dle (b64_div (Fin 1) a2) (b64_div (Fin 1) a1)"
proof (cases a1)
  case (Fin u)
  with assms(1) have u: "1 \<le> u" by simp
  show ?thesis
  proof (cases a2)
    case (Fin v)
    with \<open>a1 = Fin u\<close> assms(2) have uv: "u \<le> v" by simp
    have "1 / v \<le> 1 / u" using u uv by (simp add: frac_le)
    then show ?thesis using Fin \<open>a1 = Fin u\<close> u uv by (simp add: fl64_mono)
  next
    case PInf
    have "0 \<le> 1 / u" using u by simp
    then show ?thesis using PInf \<open>a1 = Fin u\<close> u
      by (simp add: fl64_nonneg) (simp add: b64_div_def round64_def fl64_nonneg)
  qed (use assms \<open>a1 = Fin u\<close> in simp_all)
next
  case PInf
  then show ?thesis using assms by (cases a2) (simp_all add: b64_div_def round64_def)
qed (use assms in simp_all)

lemma b64_recip_unit:
  assumes "dle (Fin 1) a"
  shows "\<exists>p. b64_div (Fin 1) a = Fin p \<and> 0 \<le> p \<and> p \<le> 1"
proof (cases a)
  case (Fin u)
  with assms have u: "1 \<le> u" by simp
  have "0 \<le> 1 / u" "1 / u \<le> 1" using u by simp_all
  then have "\<exists>p. fl64 (1 / u) = Fin p \<and> 0 \<le> p \<and> p \<le> 1"
    by (intro fl64_between) simp_all
  then show ?thesis using Fin u by simp
next
  case PInf
  then show ?thesis by (simp add: b64_div_def round64_def)
qed (use assms in simp_all)

lemma sigmoid_cliff_b64_stages:
  assumes "0 < s"
  shows "dle (Fin 1) (b64_add (Fin 1) (b64_exp (b64_mul (Fin (- s)) (b64_sub (Fin x) (Fin t)))))"
proof -
  have "b64_mul (Fin (- s)) (b64_sub (Fin x) (Fin t)) \<noteq> NaN"
    using assms by (intro b64_mul_not_NaN) simp_all
  then have e: "dle (Fin 0) (b64_exp (b64_mul (Fin (- s)) (b64_sub (Fin x) (Fin t))))"
    by (rule b64_exp_nonneg)
  have "dle (b64_exp (b64_mul (Fin (- s)) (b64_sub (Fin x) (Fin t))))
            (b64_exp (b64_mul (Fin (- s)) (b64_sub (Fin x) (Fin t))))"
    using e by (cases "b64_exp (b64_mul (Fin (- s)) (b64_sub (Fin x) (Fin t)))") simp_all
  with e show ?thesis using b64_add_one_mono by blast
qed

lemma sigmoid_cliff_b64_mono:
  assumes "0 < s" and "x \<le> y"
  shows "dle (sigmoid_cliff_b64 (Fin x) (Fin t) (Fin s)) (sigmoid_cliff_b64 (Fin y) (Fin t) (Fin s))"
proof -
  have 1: "dle (b64_sub (Fin x) (Fin t)) (b64_sub (Fin y) (Fin t))"
    using assms(2) by (rule b64_sub_mono)
  have 2: "dle (b64_mul (Fin (- s)) (b64_sub (Fin y) (Fin t)))
               (b64_mul (Fin (- s)) (b64_sub (Fin x) (Fin t)))"
    using assms(1) 1 by (rule b64_mul_neg_antimono)
  have 3: "dle (b64_exp (b64_mul (Fin (- s)) (b64_sub (Fin y) (Fin t))))
               (b64_exp (b64_mul (Fin (- s)) (b64_sub (Fin x) (Fin t))))"
    using 2 by (rule b64_exp_mono)
  have "b64_mul (Fin (- s)) (b64_sub (Fin y) (Fin t)) \<noteq> NaN"
    using assms(1) by (intro b64_mul_not_NaN) simp_all
  then have 0: "dle (Fin 0) (b64_exp (b64_mul (Fin (- s)) (b64_sub (Fin y) (Fin t))))"
    by (rule b64_exp_nonneg)
  have 4: "dle (Fin 1) (b64_add (Fin 1) (b64_exp (b64_mul (Fin (- s)) (b64_sub (Fin y) (Fin t)))))"
    and 5: "dle (b64_add (Fin 1) (b64_exp (b64_mul (Fin (- s)) (b64_sub (Fin y) (Fin t)))))
               (b64_add (Fin 1) (b64_exp (b64_mul (Fin (- s)) (b64_sub (Fin x) (Fin t)))))"
    using b64_add_one_mono [OF 0 3] by simp_all
  show ?thesis
    unfolding sigmoid_cliff_b64_def dneg.simps using 4 5 by (rule b64_recip_antimono)
qed

lemma sigmoid_cliff_b64_unit:
  assumes "0 < s"
  shows "\<exists>p. sigmoid_cliff_b64 (Fin x) (Fin t) (Fin s) = Fin p \<and> 0 \<le> p \<and> p \<le> 1"
  unfolding sigmoid_cliff_b64_def dneg.simps
  using sigmoid_cliff_b64_stages [OF assms] by (rule b64_recip_unit)

lemma sigmoid_cliff_b64_half: "sigmoid_cliff_b64 (Fin t) (Fin t) (Fin s) = Fin (1 / 2)"
  by (simp add: sigmoid_cliff_b64_def)


subsection \<open>Saturation of the logistic expression\<close>

lemma exp_ge_pow2: "2 ^ n \<le> exp (real n)"
proof -
  have "(2::real) \<le> exp 1" using exp_ge_add_one_self [of "1::real"] by simp
  then have "(2::real) ^ n \<le> exp 1 ^ n" by (intro power_mono) simp_all
  also have "\<dots> = exp (real n)" using exp_of_nat_mult [of n "1::real"] by simp
  finally show ?thesis .
qed

lemma fl64_pow2:
  assumes "- 1074 \<le> j" and "j < 1024"
  shows "fl64 (2 powi j) = Fin (2 powi j)"
proof -
  have "(2::real) powi j < 2 powi 1024" using assms(2) by (intro pow2_strict_mono)
  then have "\<bar>real_of_int 1 * 2 powi j\<bar> < overflow_threshold"
    by (simp add: overflow_threshold_def)
  from fl64_exact [OF _ assms(1) this] show ?thesis by simp
qed

lemma threshold_060: "\<exists>t. fl64 0.60 = Fin t \<and> 1 / 2 \<le> t \<and> t \<le> 1"
  by (intro fl64_between) simp_all

lemma fl64_int_between:
  assumes "of_int a \<le> x" and "x \<le> of_int b" and "\<bar>a\<bar> < 2 ^ 53" and "\<bar>b\<bar> < 2 ^ 53"
  shows "\<exists>y. fl64 x = Fin y \<and> of_int a \<le> y \<and> y \<le> of_int b"
  using fl64_of_int [OF assms(3)] fl64_of_int [OF assms(4)] assms(1,2) by (rule fl64_between)

lemma sigmoid_saturates_high:
  assumes "1 / 2 \<le> t" and "t \<le> 1" and "10 \<le> x" and "x \<le> 100"
  shows "sigmoid_cliff_b64 (Fin x) (Fin t) (Fin 15) = Fin 1"
proof -
  have "\<exists>d. fl64 (x - t) = Fin d \<and> of_int 9 \<le> d \<and> d \<le> of_int 100"
    using assms by (intro fl64_int_between) simp_all
  then obtain d where d: "fl64 (x - t) = Fin d" "9 \<le> d" "d \<le> 100" by auto
  have "\<exists>y. fl64 (- (15 * d)) = Fin y \<and> of_int (- 1500) \<le> y \<and> y \<le> of_int (- 135)"
    using d(2,3) by (intro fl64_int_between) simp_all
  then obtain y where y: "fl64 (- (15 * d)) = Fin y" "y \<le> - 135" by auto
  have "exp y \<le> exp (- real 135)" using y(2) by simp
  also have "\<dots> = 1 / exp (real 135)" by (simp only: exp_minus inverse_eq_divide)
  also have "\<dots> \<le> 1 / 2 ^ 135" using exp_ge_pow2 [of 135] by (intro divide_left_mono) simp_all
  also have "\<dots> = 2 powi (- 135)" by (simp add: power_int_minus field_simps)
  also have "\<dots> \<le> 2 powi (- 54)" by (intro pow2_mono) simp
  finally have ey: "exp y \<le> 2 powi (- 54)" .
  have "\<exists>e. fl64 (exp y) = Fin e \<and> 0 \<le> e \<and> e \<le> 2 powi (- 54)"
    using ey by (intro fl64_between fl64_pow2) simp_all
  then obtain e where e: "fl64 (exp y) = Fin e" "0 \<le> e" "e \<le> 2 powi (- 54)" by auto
  have one: "fl64 (1 + e) = Fin 1"
    using rn_one_plus_tiny [OF e(2,3)] by (intro fl64_of_rn) simp_all
  show ?thesis
    by (simp add: sigmoid_cliff_b64_def d(1) y(1) e(1) one)
qed

lemma sigmoid_saturates_low:
  assumes "1 / 2 \<le> t" and "t \<le> 1"
  shows "sigmoid_cliff_b64 (Fin (- 100)) (Fin t) (Fin 15) = Fin 0"
proof -
  have "\<exists>d. fl64 (- 100 - t) = Fin d \<and> of_int (- 101) \<le> d \<and> d \<le> of_int (- 100)"
    using assms by (intro fl64_int_between) simp_all
  then obtain d where d: "fl64 (- 100 - t) = Fin d" "- 101 \<le> d" "d \<le> - 100" by auto
  have "\<exists>y. fl64 (- (15 * d)) = Fin y \<and> of_int 1500 \<le> y \<and> y \<le> of_int 1515"
    using d(2,3) by (intro fl64_int_between) simp_all
  then obtain y where y: "fl64 (- (15 * d)) = Fin y" "1500 \<le> y" by auto
  have "(2::real) powi 1024 \<le> 2 powi 1500" by (intro pow2_mono) simp
  also have "\<dots> = 2 ^ 1500" by simp
  also have "\<dots> \<le> exp (real 1500)" by (rule exp_ge_pow2)
  also have "\<dots> \<le> exp y" using y(2) by simp
  finally have big: "2 powi 1024 \<le> exp y" .
  have "rn (of_int 1 * 2 powi 1024) = of_int 1 * 2 powi 1024" by (intro rn_exact) simp_all
  then have "rn (2 powi 1024) = 2 powi 1024" by simp
  then have "2 powi 1024 \<le> rn (exp y)" using rn_mono [OF big] by simp
  then have "overflow_threshold \<le> \<bar>rn (exp y)\<bar>" by (simp add: overflow_threshold_def)
  then have inf: "fl64 (exp y) = PInf" by (simp add: fl64_def signed_inf_def)
  show ?thesis
    by (simp add: sigmoid_cliff_b64_def d(1) y(1) inf)
       (simp add: b64_add_def b64_div_def round64_def)
qed

text \<open>
  C7, as claimed, does not hold of the rounded computation: at threshold 0.60 and
  steepness 15 the class returns exactly 1 for the states 10 and 11 alike, so the value is
  neither strictly increasing nor below 1, and it returns exactly 0 for the state -100, so
  the value is not above 0.
\<close>

theorem cliff_probability_counterexample:
  "calculateCliffProbability_b64
     (TireDegradationFilter (Fin 10) (Fin 1) (fl64 0.01) (fl64 0.5) (fl64 0.05))
     (fl64 0.60) (Fin 15) = Fin 1 \<and>
   calculateCliffProbability_b64
     (TireDegradationFilter (Fin 11) (Fin 1) (fl64 0.01) (fl64 0.5) (fl64 0.05))
     (fl64 0.60) (Fin 15) = Fin 1 \<and>
   calculateCliffProbability_b64
     (TireDegradationFilter (Fin (- 100)) (Fin 1) (fl64 0.01) (fl64 0.5) (fl64 0.05))
     (fl64 0.60) (Fin 15) = Fin 0"
proof -
  obtain t where t: "fl64 0.60 = Fin t" "1 / 2 \<le> t" "t \<le> 1" using threshold_060 by auto
  have "sigmoid_cliff_b64 (Fin 10) (Fin t) (Fin 15) = Fin 1"
    using t(2,3) by (intro sigmoid_saturates_high) simp_all
  moreover have "sigmoid_cliff_b64 (Fin 11) (Fin t) (Fin 15) = Fin 1"
    using t(2,3) by (intro sigmoid_saturates_high) simp_all
  moreover have "sigmoid_cliff_b64 (Fin (- 100)) (Fin t) (Fin 15) = Fin 0"
    using t(2,3) by (rule sigmoid_saturates_low)
  ultimately show ?thesis
    unfolding calculateCliffProbability_b64_def TireDegradationFilter_def t(1) by simp
qed

text \<open>
  C7, amended. For a fixed threshold and a fixed steepness \<open>s > 0\<close> the cliff probability
  computed in binary64, \<open>1 / (1 + exp (- s * (x - threshold)))\<close> with every operation,
  \<open>exp\<close> included, rounded to the nearest double, is non-decreasing in the state \<open>x\<close>, lies
  between 0 and 1 with both ends possible, and is exactly 0.5 when \<open>x\<close> is the threshold.
  The addon computes the same expression on its new estimate with threshold 0.60 and
  steepness 15.
\<close>

theorem cliff_probability_rounded:
  assumes "0 < s"
  shows "calculateCliffProbability_b64 (f\<lparr>flt_x := Fin x\<rparr>) (Fin t) (Fin s) =
           b64_div (Fin 1)
             (b64_add (Fin 1) (b64_exp (b64_mul (Fin (- s)) (b64_sub (Fin x) (Fin t))))) \<and>
         res_cliffProb (UpdateState_b64 x0 P Q R w m) =
           calculateCliffProbability_b64 (f\<lparr>flt_x := res_x (UpdateState_b64 x0 P Q R w m)\<rparr>)
             (fl64 0.60) (Fin 15) \<and>
         (x \<le> y \<longrightarrow> dle (calculateCliffProbability_b64 (f\<lparr>flt_x := Fin x\<rparr>) (Fin t) (Fin s))
                       (calculateCliffProbability_b64 (f\<lparr>flt_x := Fin y\<rparr>) (Fin t) (Fin s))) \<and>
         (\<exists>p. calculateCliffProbability_b64 (f\<lparr>flt_x := Fin x\<rparr>) (Fin t) (Fin s) = Fin p \<and>
              0 \<le> p \<and> p \<le> 1) \<and>
         calculateCliffProbability_b64 (f\<lparr>flt_x := Fin t\<rparr>) (Fin t) (Fin s) = Fin 0.5"
proof (intro conjI impI)
  show "calculateCliffProbability_b64 (f\<lparr>flt_x := Fin x\<rparr>) (Fin t) (Fin s) =
           b64_div (Fin 1)
             (b64_add (Fin 1) (b64_exp (b64_mul (Fin (- s)) (b64_sub (Fin x) (Fin t)))))"
    by (simp add: calculateCliffProbability_b64_def sigmoid_cliff_b64_def)
  show "res_cliffProb (UpdateState_b64 x0 P Q R w m) =
           calculateCliffProbability_b64 (f\<lparr>flt_x := res_x (UpdateState_b64 x0 P Q R w m)\<rparr>)
             (fl64 0.60) (Fin 15)"
    by (simp add: calculateCliffProbability_b64_def UpdateState_b64_def Let_def)
  show "dle (calculateCliffProbability_b64 (f\<lparr>flt_x := Fin x\<rparr>) (Fin t) (Fin s))
            (calculateCliffProbability_b64 (f\<lparr>flt_x := Fin y\<rparr>) (Fin t) (Fin s))" if "x \<le> y"
    using sigmoid_cliff_b64_mono [OF assms that, of t]
    by (simp add: calculateCliffProbability_b64_def)
  show "\<exists>p. calculateCliffProbability_b64 (f\<lparr>flt_x := Fin x\<rparr>) (Fin t) (Fin s) = Fin p \<and>
              0 \<le> p \<and> p \<le> 1"
    using sigmoid_cliff_b64_unit [OF assms, of x t]
    by (simp add: calculateCliffProbability_b64_def)
  show "calculateCliffProbability_b64 (f\<lparr>flt_x := Fin t\<rparr>) (Fin t) (Fin s) = Fin 0.5"
    by (simp add: calculateCliffProbability_b64_def sigmoid_cliff_b64_half)
qed

theorem cliff_probability_rounded_witness:
  "(0::real) < 15 \<and>
   dle (calculateCliffProbability_b64
          (TireDegradationFilter (Fin 0) (Fin 1) (fl64 0.01) (fl64 0.5) (fl64 0.05)
             \<lparr>flt_x := Fin 0\<rparr>) (Fin 0.5) (Fin 15))
       (calculateCliffProbability_b64
          (TireDegradationFilter (Fin 0) (Fin 1) (fl64 0.01) (fl64 0.5) (fl64 0.05)
             \<lparr>flt_x := Fin 1\<rparr>) (Fin 0.5) (Fin 15)) \<and>
   calculateCliffProbability_b64
          (TireDegradationFilter (Fin 0) (Fin 1) (fl64 0.01) (fl64 0.5) (fl64 0.05)
             \<lparr>flt_x := Fin 0.5\<rparr>) (Fin 0.5) (Fin 15) = Fin 0.5"
proof -
  have s: "(0::real) < 15" and xy: "(0::real) \<le> 1" by simp_all
  from s xy cliff_probability_rounded
    [where s = 15 and x = 0 and y = 1 and t = "0.5" and ?x0.0 = "Fin 0" and P = "Fin 1"
       and Q = "Fin 0" and R = "Fin 1" and w = "Fin 0" and m = "Fin 0"
       and f = "TireDegradationFilter (Fin 0) (Fin 1) (fl64 0.01) (fl64 0.5) (fl64 0.05)"]
  show ?thesis by blast
qed


subsection \<open>The gain in binary64\<close>

lemma kalman_gain_b64_unit:
  assumes "fl64 pp = Fin pp" and "0 < pp" and "0 < R"
  shows "\<exists>k. kalman_gain_b64 (Fin pp) (Fin R) = Fin k \<and> 0 \<le> k \<and> k \<le> 1"
proof -
  have "dle (fl64 pp) (fl64 (pp + R))" using assms(3) by (intro fl64_mono) simp
  then have lo: "dle (Fin pp) (fl64 (pp + R))" by (simp add: assms(1))
  show ?thesis
  proof (cases "fl64 (pp + R)")
    case (Fin v)
    with lo have v: "pp \<le> v" by simp
    then have "0 \<le> pp / v" "pp / v \<le> 1" using assms(2) by simp_all
    then have "\<exists>k. fl64 (pp / v) = Fin k \<and> 0 \<le> k \<and> k \<le> 1"
      by (intro fl64_between) simp_all
    then show ?thesis using Fin v assms(2) by (simp add: kalman_gain_b64_def)
  next
    case PInf
    then show ?thesis by (simp add: kalman_gain_b64_def) (simp add: b64_div_def round64_def)
  next
    case NInf
    with lo show ?thesis by simp
  next
    case NaN
    then show ?thesis by simp
  qed
qed

lemma corrected_covariance_b64:
  assumes "fl64 pp = Fin pp" and "0 < pp" and "0 \<le> k" and "k \<le> 1"
  shows "\<exists>pn. b64_mul (b64_sub (Fin 1) (Fin k)) (Fin pp) = Fin pn \<and> 0 \<le> pn \<and> pn \<le> pp"
proof -
  have "\<exists>c. fl64 (1 - k) = Fin c \<and> 0 \<le> c \<and> c \<le> 1"
    using assms(3,4) by (intro fl64_between) simp_all
  then obtain c where c: "fl64 (1 - k) = Fin c" "0 \<le> c" "c \<le> 1" by auto
  have "c * pp \<le> 1 * pp" using c(3) assms(2) by (intro mult_right_mono) simp_all
  then have "0 \<le> c * pp" "c * pp \<le> pp" using c(2) assms(2) by simp_all
  then have "\<exists>pn. fl64 (c * pp) = Fin pn \<and> 0 \<le> pn \<and> pn \<le> pp"
    using assms(1) by (intro fl64_between) simp_all
  then show ?thesis by (simp add: c(1))
qed

lemma corrected_estimate_b64:
  assumes "fl64 a = Fin a" and "fl64 d = Fin d" and "0 \<le> k" and "k \<le> 1"
  shows "(0 \<le> d \<longrightarrow> dle (Fin a) (b64_add (Fin a) (b64_mul (Fin k) (Fin d))) \<and>
                    dle (b64_add (Fin a) (b64_mul (Fin k) (Fin d))) (b64_add (Fin a) (Fin d))) \<and>
         (d \<le> 0 \<longrightarrow> dle (b64_add (Fin a) (Fin d)) (b64_add (Fin a) (b64_mul (Fin k) (Fin d))) \<and>
                    dle (b64_add (Fin a) (b64_mul (Fin k) (Fin d))) (Fin a))"
proof (intro conjI impI)
  assume d: "0 \<le> d"
  have "k * d \<le> 1 * d" using assms(4) d by (intro mult_right_mono) simp_all
  then have "0 \<le> k * d" "k * d \<le> d" using assms(3) d by simp_all
  then have "\<exists>q. fl64 (k * d) = Fin q \<and> 0 \<le> q \<and> q \<le> d"
    using assms(2) by (intro fl64_between) simp_all
  then obtain q where q: "fl64 (k * d) = Fin q" "0 \<le> q" "q \<le> d" by auto
  have "dle (fl64 a) (fl64 (a + q))" using q(2) by (intro fl64_mono) simp
  then show "dle (Fin a) (b64_add (Fin a) (b64_mul (Fin k) (Fin d)))"
    by (simp add: q(1) assms(1))
  have "dle (fl64 (a + q)) (fl64 (a + d))" using q(3) by (intro fl64_mono) simp
  then show "dle (b64_add (Fin a) (b64_mul (Fin k) (Fin d))) (b64_add (Fin a) (Fin d))"
    by (simp add: q(1))
next
  assume d: "d \<le> 0"
  have "1 * d \<le> k * d" using assms(4) d by (intro mult_right_mono_neg) simp_all
  moreover have "k * d \<le> 0" using assms(3) d by (simp add: mult_nonneg_nonpos)
  ultimately have "d \<le> k * d" "k * d \<le> 0" by simp_all
  then have "\<exists>q. fl64 (k * d) = Fin q \<and> d \<le> q \<and> q \<le> 0"
    using assms(2) by (intro fl64_between) simp_all
  then obtain q where q: "fl64 (k * d) = Fin q" "d \<le> q" "q \<le> 0" by auto
  have "dle (fl64 (a + d)) (fl64 (a + q))" using q(2) by (intro fl64_mono) simp
  then show "dle (b64_add (Fin a) (Fin d)) (b64_add (Fin a) (b64_mul (Fin k) (Fin d)))"
    by (simp add: q(1))
  have "dle (fl64 (a + q)) (fl64 a)" using q(3) by (intro fl64_mono) simp
  then show "dle (b64_add (Fin a) (b64_mul (Fin k) (Fin d))) (Fin a)"
    by (simp add: q(1) assms(1))
qed

lemma UpdateState_b64_steps:
  assumes "b64_add (Fin x) (Fin w) = Fin a" and "b64_add (Fin P) (Fin Q) = Fin pp"
    and "kalman_gain_b64 (Fin pp) (Fin R) = Fin k" and "b64_sub (Fin m) (Fin a) = Fin d"
  shows "res_x (UpdateState_b64 (Fin x) (Fin P) (Fin Q) (Fin R) (Fin w) (Fin m)) =
           b64_add (Fin a) (b64_mul (Fin k) (Fin d)) \<and>
         res_P (UpdateState_b64 (Fin x) (Fin P) (Fin Q) (Fin R) (Fin w) (Fin m)) =
           b64_mul (b64_sub (Fin 1) (Fin k)) (Fin pp) \<and>
         update_b64 (TireDegradationFilter (Fin x) (Fin P) (Fin Q) (Fin R) (Fin w)) (Fin m) =
           (TireDegradationFilter (b64_add (Fin a) (b64_mul (Fin k) (Fin d)))
              (b64_mul (b64_sub (Fin 1) (Fin k)) (Fin pp)) (Fin Q) (Fin R) (Fin w),
            b64_add (Fin a) (b64_mul (Fin k) (Fin d)))"
  using assms
  by (simp add: UpdateState_b64_def update_b64_def TireDegradationFilter_def Let_def
      del: b64_Fin b64_div_Fin)


lemma fl64_one_plus_tiny:
  assumes "0 \<le> e" and "e \<le> 2 powi (- 54)"
  shows "fl64 (1 + e) = Fin 1" and "fl64 (e + 1) = Fin 1"
proof -
  show "fl64 (1 + e) = Fin 1" using rn_one_plus_tiny [OF assms] by (intro fl64_of_rn) simp_all
  then show "fl64 (e + 1) = Fin 1" by (simp add: add.commute)
qed

lemma fl64_one_minus_tiny:
  assumes "0 \<le> e" and "e \<le> 2 powi (- 55)"
  shows "fl64 (1 - e) = Fin 1"
  using rn_one_minus_tiny [OF assms] by (intro fl64_of_rn) simp_all

lemma fl64_above_midpoint: "fl64 (1 + (2 powi (- 53) + 2 powi (- 80))) = Fin (1 + 2 powi (- 52))"
proof -
  define x :: real where "x = 1 + (2 powi (- 53) + 2 powi (- 80))"
  have x1: "1 \<le> x" by (simp add: x_def)
  have "(2::real) powi (- 53) + 2 powi (- 80) < 1" by (simp add: power_int_minus)
  then have x2: "x < 2" by (simp add: x_def)
  have sc: "x / 2 powi (0 - 52) = of_int (2 ^ 52 + 1) - 1 / 2 + 1 / 2 ^ 28"
    by (simp add: x_def power_int_minus field_simps)
  have re: "round_even (x / 2 powi (0 - 52)) = 2 ^ 52 + 1"
    unfolding sc by (intro round_even_eqI) simp_all
  have "rn x = 2 powi (0 - 52) * of_int (round_even (x / 2 powi (0 - 52)))"
    using x1 x2 by (intro rn_eval) simp_all
  then have "rn x = 1 + 2 powi (- 52)" unfolding re by (simp add: power_int_minus field_simps)
  then have "fl64 x = Fin (1 + 2 powi (- 52))" by (intro fl64_of_rn) (simp_all add: power_int_minus)
  then show ?thesis by (simp only: x_def)
qed

text \<open>
  C9, as claimed, does not hold of the rounded computation. With \<open>P_pred = 1\<close> and
  \<open>R = 2^-60\<close>, both positive, the sum \<open>P_pred + R\<close> rounds to 1 and the gain is exactly 1;
  the corrected estimate is then the measurement itself (prediction 0, measurement 1), and
  with prediction -1 and measurement \<open>2^-53 + 2^-80\<close> it is \<open>2^-52\<close>, beyond the
  measurement. With \<open>P_pred = 2^-60\<close> and \<open>R = 1\<close> the factor \<open>1 - K\<close> rounds to 1 and the
  corrected covariance equals \<open>P_pred\<close>.
\<close>

theorem gain_counterexample:
  "kalman_gain_b64 (b64_add (Fin 1) (Fin 0)) (Fin (2 powi (- 60))) = Fin 1 \<and>
   res_x (UpdateState_b64 (Fin 0) (Fin 1) (Fin 0) (Fin (2 powi (- 60))) (Fin 0) (Fin 1)) = Fin 1 \<and>
   res_x (UpdateState_b64 (Fin (- 1)) (Fin 1) (Fin 0) (Fin (2 powi (- 60))) (Fin 0)
            (Fin (2 powi (- 53) + 2 powi (- 80)))) = Fin (2 powi (- 52)) \<and>
   res_P (UpdateState_b64 (Fin 0) (Fin (2 powi (- 60))) (Fin 0) (Fin 1) (Fin 0) (Fin 1)) =
     Fin (2 powi (- 60))"
proof -
  define r :: real where "r = 2 powi (- 60)"
  define m :: real where "m = 2 powi (- 53) + 2 powi (- 80)"
  have r0: "0 \<le> r" by (simp add: r_def)
  have r54: "r \<le> 2 powi (- 54)" unfolding r_def by (intro pow2_mono) simp
  have r55: "r \<le> 2 powi (- 55)" unfolding r_def by (intro pow2_mono) simp
  have fr: "fl64 r = Fin r" unfolding r_def by (intro fl64_pow2) simp_all
  have pp1: "b64_add (Fin 1) (Fin 0) = Fin 1" by simp
  have k1: "kalman_gain_b64 (Fin 1) (Fin r) = Fin 1"
    by (simp add: kalman_gain_b64_def fl64_one_plus_tiny [OF r0 r54])
  have g: "kalman_gain_b64 (b64_add (Fin 1) (Fin 0)) (Fin r) = Fin 1"
    unfolding pp1 by (rule k1)
  have a0: "b64_add (Fin 0) (Fin 0) = Fin 0" by simp
  have d1: "b64_sub (Fin 1) (Fin 0) = Fin 1" by simp
  have x1: "res_x (UpdateState_b64 (Fin 0) (Fin 1) (Fin 0) (Fin r) (Fin 0) (Fin 1)) = Fin 1"
    using UpdateState_b64_steps [OF a0 pp1 k1 d1] by simp
  have a2: "b64_add (Fin (- 1)) (Fin 0) = Fin (- 1)" using fl64_of_int [of "- 1"] by simp
  have d2: "b64_sub (Fin m) (Fin (- 1)) = Fin (1 + 2 powi (- 52))"
    using fl64_above_midpoint by (simp add: m_def add.commute)
  have q2: "fl64 (1 + 2 powi (- 52)) = Fin (1 + 2 powi (- 52))"
    using d2 by (simp add: fl64_idem)
  have s2: "fl64 (2 powi (- 52)) = Fin (2 powi (- 52))" by (intro fl64_pow2) simp_all
  have "res_x (UpdateState_b64 (Fin (- 1)) (Fin 1) (Fin 0) (Fin r) (Fin 0) (Fin m)) =
          b64_add (Fin (- 1)) (b64_mul (Fin 1) (Fin (1 + 2 powi (- 52))))"
    using UpdateState_b64_steps [OF a2 pp1 k1 d2] by simp
  also have "\<dots> = b64_add (Fin (- 1)) (Fin (1 + 2 powi (- 52)))"
    using q2 by simp
  also have "\<dots> = Fin (2 powi (- 52))" using s2 by simp
  finally have x2: "res_x (UpdateState_b64 (Fin (- 1)) (Fin 1) (Fin 0) (Fin r) (Fin 0) (Fin m)) =
     Fin (2 powi (- 52))" .
  have pp3: "b64_add (Fin r) (Fin 0) = Fin r" using fr by simp
  have k3: "kalman_gain_b64 (Fin r) (Fin 1) = Fin r"
    using fr by (simp add: kalman_gain_b64_def fl64_one_plus_tiny [OF r0 r54])
  have "res_P (UpdateState_b64 (Fin 0) (Fin r) (Fin 0) (Fin 1) (Fin 0) (Fin 1)) =
          b64_mul (b64_sub (Fin 1) (Fin r)) (Fin r)"
    using UpdateState_b64_steps [OF a0 pp3 k3 d1] by simp
  also have "\<dots> = Fin r" using fr by (simp add: fl64_one_minus_tiny [OF r0 r55])
  finally have p3: "res_P (UpdateState_b64 (Fin 0) (Fin r) (Fin 0) (Fin 1) (Fin 0) (Fin 1)) = Fin r" .
  show ?thesis using g x1 x2 p3 unfolding r_def m_def by blast
qed

text \<open>
  C9, amended. For every update of finite values in binary64 whose predicted covariance
  \<open>P_pred = P + Q\<close> (rounded) is finite and positive and with \<open>R > 0\<close>, the gain
  \<open>K = P_pred / (P_pred + R)\<close> is finite and lies between 0 and 1, both ends possible; the
  corrected covariance \<open>(1 - K) * P_pred\<close> lies between 0 and \<open>P_pred\<close>; and the corrected
  estimate \<open>x_pred + K * (measurement - x_pred)\<close> lies between the prediction \<open>x_pred\<close> and
  the rounded sum \<open>x_pred + (measurement - x_pred)\<close>, ends included. The addon and the class
  return the same estimate and covariance.
\<close>

theorem gain_within_unit_interval:
  assumes "b64_add (Fin P) (Fin Q) = Fin pp" and "0 < pp" and "0 < R"
    and "b64_add (Fin x) (Fin w) = Fin a" and "b64_sub (Fin m) (Fin a) = Fin d"
  shows "\<exists>k pn.
           kalman_gain_b64 (b64_add (Fin P) (Fin Q)) (Fin R) = Fin k \<and>
           Fin k = b64_div (Fin pp) (b64_add (Fin pp) (Fin R)) \<and> 0 \<le> k \<and> k \<le> 1 \<and>
           res_P (UpdateState_b64 (Fin x) (Fin P) (Fin Q) (Fin R) (Fin w) (Fin m)) = Fin pn \<and>
           Fin pn = b64_mul (b64_sub (Fin 1) (Fin k)) (Fin pp) \<and> 0 \<le> pn \<and> pn \<le> pp \<and>
           res_x (UpdateState_b64 (Fin x) (Fin P) (Fin Q) (Fin R) (Fin w) (Fin m)) =
             b64_add (Fin a) (b64_mul (Fin k) (Fin d)) \<and>
           (0 \<le> d \<longrightarrow>
              dle (Fin a) (res_x (UpdateState_b64 (Fin x) (Fin P) (Fin Q) (Fin R) (Fin w) (Fin m))) \<and>
              dle (res_x (UpdateState_b64 (Fin x) (Fin P) (Fin Q) (Fin R) (Fin w) (Fin m)))
                  (b64_add (Fin a) (Fin d))) \<and>
           (d \<le> 0 \<longrightarrow>
              dle (b64_add (Fin a) (Fin d))
                  (res_x (UpdateState_b64 (Fin x) (Fin P) (Fin Q) (Fin R) (Fin w) (Fin m))) \<and>
              dle (res_x (UpdateState_b64 (Fin x) (Fin P) (Fin Q) (Fin R) (Fin w) (Fin m))) (Fin a)) \<and>
           update_b64 (TireDegradationFilter (Fin x) (Fin P) (Fin Q) (Fin R) (Fin w)) (Fin m) =
             (TireDegradationFilter
                (res_x (UpdateState_b64 (Fin x) (Fin P) (Fin Q) (Fin R) (Fin w) (Fin m)))
                (Fin pn) (Fin Q) (Fin R) (Fin w),
              res_x (UpdateState_b64 (Fin x) (Fin P) (Fin Q) (Fin R) (Fin w) (Fin m)))"
proof -
  have fpp: "fl64 pp = Fin pp" using assms(1) by (simp add: fl64_idem)
  have fa: "fl64 a = Fin a" using assms(4) by (simp add: fl64_idem)
  have fd: "fl64 d = Fin d" using assms(5) by (simp add: fl64_idem)
  obtain k where k: "kalman_gain_b64 (Fin pp) (Fin R) = Fin k" "0 \<le> k" "k \<le> 1"
    using kalman_gain_b64_unit [OF fpp assms(2,3)] by auto
  obtain pn where pn: "b64_mul (b64_sub (Fin 1) (Fin k)) (Fin pp) = Fin pn" "0 \<le> pn" "pn \<le> pp"
    using corrected_covariance_b64 [OF fpp assms(2) k(2,3)] by auto
  note st = UpdateState_b64_steps [OF assms(4) assms(1) k(1) assms(5)]
  note es = corrected_estimate_b64 [OF fa fd k(2,3)]
  have g: "kalman_gain_b64 (b64_add (Fin P) (Fin Q)) (Fin R) = Fin k"
    unfolding assms(1) by (rule k(1))
  have kf: "Fin k = b64_div (Fin pp) (b64_add (Fin pp) (Fin R))"
    using k(1) by (simp only: kalman_gain_b64_def)
  have rx: "res_x (UpdateState_b64 (Fin x) (Fin P) (Fin Q) (Fin R) (Fin w) (Fin m)) =
      b64_add (Fin a) (b64_mul (Fin k) (Fin d))" using st by blast
  have rp: "res_P (UpdateState_b64 (Fin x) (Fin P) (Fin Q) (Fin R) (Fin w) (Fin m)) = Fin pn"
    using st pn(1) by simp
  have up: "update_b64 (TireDegradationFilter (Fin x) (Fin P) (Fin Q) (Fin R) (Fin w)) (Fin m) =
             (TireDegradationFilter
                (res_x (UpdateState_b64 (Fin x) (Fin P) (Fin Q) (Fin R) (Fin w) (Fin m)))
                (Fin pn) (Fin Q) (Fin R) (Fin w),
              res_x (UpdateState_b64 (Fin x) (Fin P) (Fin Q) (Fin R) (Fin w) (Fin m)))"
    unfolding rx using st pn(1) by simp
  have es': "(0 \<le> d \<longrightarrow>
              dle (Fin a) (res_x (UpdateState_b64 (Fin x) (Fin P) (Fin Q) (Fin R) (Fin w) (Fin m))) \<and>
              dle (res_x (UpdateState_b64 (Fin x) (Fin P) (Fin Q) (Fin R) (Fin w) (Fin m)))
                  (b64_add (Fin a) (Fin d))) \<and>
           (d \<le> 0 \<longrightarrow>
              dle (b64_add (Fin a) (Fin d))
                  (res_x (UpdateState_b64 (Fin x) (Fin P) (Fin Q) (Fin R) (Fin w) (Fin m))) \<and>
              dle (res_x (UpdateState_b64 (Fin x) (Fin P) (Fin Q) (Fin R) (Fin w) (Fin m))) (Fin a))"
    unfolding rx by (rule es)
  show ?thesis
    using g kf k(2,3) rp pn(1) [symmetric] pn(2,3) rx es' up by blast
qed

theorem gain_within_unit_interval_witness:
  "b64_add (Fin 1) (Fin 0) = Fin 1 \<and> (0::real) < 1 \<and>
   b64_add (Fin 0) (Fin 0) = Fin 0 \<and> b64_sub (Fin 1) (Fin 0) = Fin 1 \<and>
   (\<exists>k pn.
      kalman_gain_b64 (b64_add (Fin 1) (Fin 0)) (Fin 1) = Fin k \<and> 0 \<le> k \<and> k \<le> 1 \<and>
      res_P (UpdateState_b64 (Fin 0) (Fin 1) (Fin 0) (Fin 1) (Fin 0) (Fin 1)) = Fin pn \<and>
      0 \<le> pn \<and> pn \<le> 1 \<and>
      dle (Fin 0) (res_x (UpdateState_b64 (Fin 0) (Fin 1) (Fin 0) (Fin 1) (Fin 0) (Fin 1))) \<and>
      dle (res_x (UpdateState_b64 (Fin 0) (Fin 1) (Fin 0) (Fin 1) (Fin 0) (Fin 1)))
          (b64_add (Fin 0) (Fin 1)))"
proof -
  have h: "b64_add (Fin 1) (Fin 0) = Fin 1" "(0::real) < 1"
    "b64_add (Fin 0) (Fin 0) = Fin 0" "b64_sub (Fin 1) (Fin 0) = Fin 1" "(0::real) \<le> 1"
    by simp_all
  from gain_within_unit_interval [OF h(1) h(2) h(2) h(3) h(4)] h show ?thesis by blast
qed

subsection \<open>A combined variance that is not positive\<close>

lemma is_finite_simps [simp]:
  "is_finite (Fin a)" "\<not> is_finite NaN" "\<not> is_finite PInf" "\<not> is_finite NInf"
  by (simp_all add: is_finite_def)

lemma not_finite_signed_inf [simp]: "\<not> is_finite (signed_inf b)"
  by (simp add: signed_inf_def)








subsection \<open>The covariance along a run\<close>









section \<open>Properties of the strategy modules\<close>

subsection \<open>Math on finite numbers\<close>

lemma Math_max_Fin: "Math_max (Fin a) (Fin b) = Fin (max a b)"
  by (simp add: Math_max_def max_def)

lemma Math_min_Fin: "Math_min (Fin a) (Fin b) = Fin (min a b)"
  by (simp add: Math_min_def min_def)

lemma Math_max_of_int: "Math_max (Fin (of_int a)) (Fin (of_int b)) = Fin (of_int (max a b))"
  by (simp add: Math_max_Fin)

subsection \<open>Position loss of a pit stop\<close>

lemma estimatePositionLoss_Fin:
  "estimatePositionLoss (PitStopAnalyzer trackLength) (Fin cp) (Fin lap) None (Fin rnd) =
     \<lparr> pl_timeLossSeconds = Fin 24,
       pl_positionsLost =
         Fin (of_int \<lfloor>max 1 (max 1 (min (1 - lap / 300 * 0.5) (cp - 1)) + (rnd - 0.5)) + 1 / 2\<rfloor>),
       pl_newPosition =
         Fin (cp + of_int \<lfloor>max 1 (max 1 (min (1 - lap / 300 * 0.5) (cp - 1)) + (rnd - 0.5)) + 1 / 2\<rfloor>) \<rparr>"
  by (simp add: estimatePositionLoss_def PitStopAnalyzer_def Let_def dsub_def
      Math_max_Fin Math_min_Fin)

lemma round_of_at_least_one: "1 \<le> \<lfloor>max 1 (y::real) + 1 / 2\<rfloor>"
proof -
  have "(1::real) \<le> max 1 y + 1 / 2" by simp
  then have "\<lfloor>1::real\<rfloor> \<le> \<lfloor>max 1 y + 1 / 2\<rfloor>" by (rule floor_mono)
  then show ?thesis by simp
qed

text \<open>
  C10. For every finite current position (so for every position from 1 on), every finite
  lap and every finite number drawn by \<^verbatim>\<open>Math.random()\<close> (so for every variance between
  -0.5 and 0.5), \<^verbatim>\<open>estimatePositionLoss\<close> with the default race length returns an integer
  \<open>positionsLost \<ge> 1\<close> and \<open>newPosition = currentPosition + positionsLost\<close>, which is at
  least \<open>currentPosition + 1\<close>: a car in P1 is reported as losing a position, and there is
  no cap at 20, a car in P20 is reported in P21 or worse.
\<close>

theorem position_loss_at_least_one:
  "\<exists>k::int. 1 \<le> k \<and>
     pl_positionsLost (estimatePositionLoss (PitStopAnalyzer trackLength) (Fin cp) (Fin lap) None (Fin rnd))
       = Fin (of_int k) \<and>
     pl_newPosition (estimatePositionLoss (PitStopAnalyzer trackLength) (Fin cp) (Fin lap) None (Fin rnd))
       = Fin (cp + of_int k) \<and>
     dge (pl_newPosition (estimatePositionLoss (PitStopAnalyzer trackLength) (Fin cp) (Fin lap) None (Fin rnd)))
       (Fin (cp + 1))"
proof -
  define k where "k = \<lfloor>max 1 (max 1 (min (1 - lap / 300 * 0.5) (cp - 1)) + (rnd - 0.5)) + 1 / 2\<rfloor>"
  have "1 \<le> k" unfolding k_def by (rule round_of_at_least_one)
  moreover from this have "cp + 1 \<le> cp + of_int k" by simp
  ultimately show ?thesis
    unfolding k_def
    by (intro exI [of _ "\<lfloor>max 1 (max 1 (min (1 - lap / 300 * 0.5) (cp - 1)) + (rnd - 0.5)) + 1 / 2\<rfloor>"])
       (simp add: estimatePositionLoss_Fin dge_def)
qed

subsection \<open>The pit window ladder\<close>

text \<open>
  C3 (as stated, refuted). The claim: whenever the mandatory-pit condition (tire age at
  99% of the compound's life) does not hold, the recommendation is the ladder of the
  specification. \<^verbatim>\<open>determineOptimalPitWindow\<close> has a gate of its own before the ladder, at 95%
  of the tire life. After 27 laps on MEDIUM tires (life 28) the mandatory condition is
  false, the cliff probability 0 puts the ladder at STAY_OUT, and the function returns
  PIT_IMMEDIATELY.
\<close>

theorem pit_window_ladder_counterexample:
  "\<not> isPitStopMandatory (Fin 27) MEDIUM \<and>
   pw_recommendation (determineOptimalPitWindow (Fin 30) (Fin 0) (Fin 27)
       (Some (Fin 27)) (Some (getMaxLaps MEDIUM))) = ''PIT_IMMEDIATELY'' \<and>
   ladder_spec (Fin 0) (Fin 27) = ''STAY_OUT''"
  by (simp add: isPitStopMandatory_def determineOptimalPitWindow_def ladder_spec_def
      dge_def dgt_def Let_def)

text \<open>
  C3 (amended). For every call where the tire-age gate of the function does not fire
  (\<open>tireAge >= maxTireAge * 0.95\<close> is false, as it is when the two optional arguments are
  left out), the recommendation is PIT_IMMEDIATELY when \<open>cliffProb >= 0.75\<close>, otherwise
  PIT_SOON when \<open>cliffProb >= 0.65\<close>, otherwise CONSIDER_PIT when \<open>lapsSincePit > 20\<close> and
  \<open>cliffProb > 0.50\<close>, otherwise STAY_OUT; in particular for \<open>cliffProb = 0.80\<close> it is
  PIT_IMMEDIATELY. No urgency score enters the function.
\<close>

theorem pit_window_ladder:
  assumes "\<not> dge (case tireAge of None \<Rightarrow> Fin 0 | Some v \<Rightarrow> v)
                 (dmul (case maxTireAge of None \<Rightarrow> Fin 25 | Some v \<Rightarrow> v) (Fin 0.95))"
  shows "pw_recommendation
           (determineOptimalPitWindow currentLap cliffProb lapsSincePit tireAge maxTireAge)
           = ladder_spec cliffProb lapsSincePit \<and>
         pw_recommendation (determineOptimalPitWindow currentLap cliffProb lapsSincePit None None)
           = ladder_spec cliffProb lapsSincePit \<and>
         pw_recommendation
           (determineOptimalPitWindow currentLap (Fin 0.80) lapsSincePit tireAge maxTireAge)
           = ''PIT_IMMEDIATELY''"
  using assms
  by (simp add: determineOptimalPitWindow_def ladder_spec_def Let_def dge_def)

theorem pit_window_ladder_witness:
  "\<not> dge (Fin 10) (dmul (Fin 28) (Fin 0.95)) \<and>
   pw_recommendation (determineOptimalPitWindow (Fin 12) (Fin 0.70) (Fin 10)
       (Some (Fin 10)) (Some (Fin 28))) = ''PIT_SOON'' \<and>
   pw_recommendation (determineOptimalPitWindow (Fin 12) (Fin 0.80) (Fin 10)
       (Some (Fin 10)) (Some (Fin 28))) = ''PIT_IMMEDIATELY''"
  using pit_window_ladder [of "Some (Fin 10)" "Some (Fin 28)" "Fin 12" "Fin 0.70" "Fin 10"]
  by (simp add: ladder_spec_def dge_def)

subsection \<open>The mandatory pit stop\<close>









subsection \<open>The urgency score\<close>

text \<open>The blocks leave the sub-scores of the other blocks alone.\<close>

lemma tireAgeUrgency_frame:
  "an_fuelUrgency (tireAgeUrgency a r c) = an_fuelUrgency a \<and>
   an_strategyUrgency (tireAgeUrgency a r c) = an_strategyUrgency a"
  by (simp add: tireAgeUrgency_def)

lemma cliffProbabilityUrgency_frame:
  "an_fuelUrgency (cliffProbabilityUrgency a c) = an_fuelUrgency a \<and>
   an_strategyUrgency (cliffProbabilityUrgency a c) = an_strategyUrgency a"
  by (simp add: cliffProbabilityUrgency_def)

lemma fuelUrgency_frame:
  "an_tireUrgency (fuelUrgency a f g) = an_tireUrgency a \<and>
   an_strategyUrgency (fuelUrgency a f g) = an_strategyUrgency a"
  by (simp add: fuelUrgency_def Let_def)

lemma strategyUrgency_frame:
  "an_tireUrgency (strategyUrgency a p c l w) = an_tireUrgency a \<and>
   an_fuelUrgency (strategyUrgency a p c l w) = an_fuelUrgency a"
  by (simp add: strategyUrgency_def)


lemma cliff_times_five:
  assumes "0 \<le> c" and "c \<le> 1"
  shows "\<exists>y. b64_mul (Fin c) (Fin 5) = Fin y \<and> 0 \<le> round y \<and> round y \<le> 5"
proof -
  have "\<exists>y. fl64 (c * 5) = Fin y \<and> of_int 0 \<le> y \<and> y \<le> of_int 5"
    using assms by (intro fl64_int_between) simp_all
  then obtain y where y: "fl64 (c * 5) = Fin y" "0 \<le> y" "y \<le> 5" by auto
  have "round (0::real) \<le> round y" using y(2) by (rule round_mono)
  moreover have "round y \<le> round (5::real)" using y(3) by (rule round_mono)
  ultimately show ?thesis using y(1) by simp
qed

lemma Math_round_score: "Math_round (Fin y) = Fin (of_int (rounded_score (Fin y)))"
  by (simp add: round_def)

lemma tireAgeUrgency_score:
  assumes "b64_mul c (Fin 5) = Fin y"
  shows "an_tireUrgency (tireAgeUrgency a r c) =
     Fin (of_int (if dge r (fl64 0.95) then 10 else if dge r (fl64 0.85) then 9
                  else if dge r (fl64 0.75) then 7 else if dge r (fl64 0.60) then 4
                  else rounded_score (b64_mul c (Fin 5))))"
  unfolding assms tireAgeUrgency_def assms using Math_round_score [of y] by simp

lemma cliffProbabilityUrgency_score:
  assumes "an_tireUrgency a = Fin (of_int age)"
  shows "an_tireUrgency (cliffProbabilityUrgency a c) =
     Fin (of_int (if dgt c (fl64 0.75) then max age 10 else if dgt c (fl64 0.65) then max age 7
                  else if dgt c (fl64 0.50) then max age 4 else age))"
  using assms Math_max_of_int [of age 10] Math_max_of_int [of age 7] Math_max_of_int [of age 4]
  by (simp add: cliffProbabilityUrgency_def)

lemma fuelUrgency_score:
  "an_fuelUrgency (fuelUrgency a fu g) =
     Fin (of_int (if dlt (Math_ceil (b64_div fu g)) (Fin 5) then 10
                  else if dlt (Math_ceil (b64_div fu g)) (Fin 10) then 6 else 1))"
  by (simp add: fuelUrgency_def Let_def)

lemma strategyUrgency_score:
  "an_strategyUrgency (strategyUrgency a p c l w) =
     Fin (of_int (if dgt p (Fin 10) \<and> dgt c (fl64 0.50) \<and> dgt l (Fin 15) then 6
                  else if w = ''WET'' \<or> w = ''INTERMEDIATE'' then 5 else 1))"
  by (simp add: strategyUrgency_def)

lemma max_triggered_ladder:
  assumes "0 \<le> k" and "k \<le> 5"
  shows "max_triggered [(b1, 10), (b2, 9), (b3, 7), (b4, 4), (\<not> b4, k),
                        (c1, 10), (c2, 7), (c3, 4)] =
     (if c1 then max (if b1 then 10 else if b2 then 9 else if b3 then 7 else if b4 then 4 else k) 10
      else if c2 then max (if b1 then 10 else if b2 then 9 else if b3 then 7 else if b4 then 4 else k) 7
      else if c3 then max (if b1 then 10 else if b2 then 9 else if b3 then 7 else if b4 then 4 else k) 4
      else (if b1 then 10 else if b2 then 9 else if b3 then 7 else if b4 then 4 else k))
     \<and> 0 \<le> max_triggered [(b1, 10), (b2, 9), (b3, 7), (b4, 4), (\<not> b4, k),
                        (c1, 10), (c2, 7), (c3, 4)]
     \<and> max_triggered [(b1, 10), (b2, 9), (b3, 7), (b4, 4), (\<not> b4, k),
                        (c1, 10), (c2, 7), (c3, 4)] \<le> 10"
  unfolding max_triggered_def using assms by (auto simp: max_def)

lemma fuel_rules_max:
  "max_triggered (fuel_rules L) =
     (if dlt L (Fin 5) then 10 else if dlt L (Fin 10) then 6 else 1)"
  by (simp add: max_triggered_def fuel_rules_def)

lemma strategy_rules_max:
  "max_triggered (strategy_rules p c l w) =
     (if dgt p (Fin 10) \<and> dgt c (fl64 0.50) \<and> dgt l (Fin 15) then 6
      else if w = ''WET'' \<or> w = ''INTERMEDIATE'' then 5 else 1)"
  by (simp add: max_triggered_def strategy_rules_def)


subsection \<open>The weighted total\<close>

lemma total_bounds:
  assumes "0 \<le> (T::int)" "T \<le> 10" "0 \<le> (F::int)" "F \<le> 10" "0 \<le> (S::int)" "S \<le> 10"
  shows "0 \<le> round ((of_int T * 1.5 + of_int F + of_int S) / (3.5::real)) \<and>
         round ((of_int T * 1.5 + of_int F + of_int S) / (3.5::real)) \<le> 10"
proof -
  define v :: real where "v = (of_int T * 1.5 + of_int F + of_int S) / 3.5"
  have "0 \<le> of_int T * (1.5::real) + of_int F + of_int S" using assms by simp
  then have lo: "0 \<le> v" by (simp add: v_def)
  have "of_int T \<le> (10::real)" "of_int F \<le> (10::real)" "of_int S \<le> (10::real)"
    using assms by simp_all
  then have "of_int T * (1.5::real) + of_int F + of_int S \<le> 35" by linarith
  then have hi: "v \<le> 10" by (simp add: v_def)
  have "round (0::real) \<le> round v" using lo by (rule round_mono)
  moreover have "round v \<le> round (10::real)" using hi by (rule round_mono)
  ultimately show ?thesis by (simp add: v_def)
qed


lemma fl64_halves:
  assumes "\<bar>n\<bar> < 2 ^ 53"
  shows "fl64 (of_int n / 2) = Fin (of_int n / 2)"
proof -
  have "\<bar>real_of_int n\<bar> < 2 ^ 53" using assms
    by (metis of_int_abs of_int_less_iff of_int_numeral of_int_power)
  then have "\<bar>real_of_int n * 2 powi (- 1)\<bar> < overflow_threshold"
    using overflow_threshold_large by (simp add: power_int_minus)
  from fl64_exact [OF assms _ this] show ?thesis by (simp add: power_int_minus)
qed

lemma fl64_sixteenths:
  assumes "\<bar>n\<bar> < 2 ^ 53"
  shows "fl64 (of_int n / 16) = Fin (of_int n / 16)"
proof -
  have "\<bar>real_of_int n\<bar> < 2 ^ 53" using assms
    by (metis of_int_abs of_int_less_iff of_int_numeral of_int_power)
  then have "\<bar>real_of_int n * 2 powi (- 4)\<bar> < overflow_threshold"
    using overflow_threshold_large by (simp add: power_int_minus)
  from fl64_exact [OF assms _ this] show ?thesis by (simp add: power_int_minus)
qed

lemma round_sevenths:
  assumes "0 \<le> n" and "n \<le> 70"
  shows "\<exists>y. fl64 (of_int n / 7) = Fin y \<and> round y = round (real_of_int n / 7)"
proof -
  define k where "k = round (real_of_int n / 7)"
  have "of_int k \<le> real_of_int n / 7 + 1 / 2" "real_of_int n / 7 + 1 / 2 < of_int k + 1"
    unfolding k_def round_def by linarith+
  then have "real_of_int (14 * k) \<le> of_int (2 * n + 7)" "real_of_int (2 * n + 7) < of_int (14 * k + 14)"
    by (simp_all add: field_simps)
  then have "14 * k \<le> 2 * n + 7" "2 * n + 7 < 14 * k + 14"
    by (simp_all only: of_int_le_iff of_int_less_iff)
  then have kn: "7 * k - 3 \<le> n" "n \<le> 7 * k + 3" by presburger+
  then have kb: "0 \<le> k" "k \<le> 10" using assms by presburger+
  have lo: "real_of_int (16 * k - 7) / 16 \<le> real_of_int n / 7"
  proof -
    have "real_of_int (7 * k - 3) \<le> of_int n" using kn(1) by (simp only: of_int_le_iff)
    then show ?thesis using kb by (simp add: field_simps)
  qed
  have hi: "real_of_int n / 7 \<le> real_of_int (16 * k + 7) / 16"
  proof -
    have "real_of_int n \<le> of_int (7 * k + 3)" using kn(2) by (simp only: of_int_le_iff)
    then show ?thesis using kb by (simp add: field_simps)
  qed
  have "\<bar>16 * k - 7\<bar> < 2 ^ 53" "\<bar>16 * k + 7\<bar> < 2 ^ 53" using kb by simp_all
  then have "\<exists>y. fl64 (real_of_int n / 7) = Fin y \<and>
      real_of_int (16 * k - 7) / 16 \<le> y \<and> y \<le> real_of_int (16 * k + 7) / 16"
    using lo hi by (intro fl64_between fl64_sixteenths)
  then obtain y where y: "fl64 (real_of_int n / 7) = Fin y"
    "real_of_int (16 * k - 7) / 16 \<le> y" "y \<le> real_of_int (16 * k + 7) / 16" by auto
  have "of_int k \<le> y + 1 / 2" "y + 1 / 2 < of_int k + 1" using y(2,3) by simp_all
  then have "round y = k" unfolding round_def by (intro floor_unique) simp_all
  then show ?thesis using y(1) by (auto simp: k_def)
qed

lemma total_rounded:
  assumes "0 \<le> (T::int)" "T \<le> 10" "0 \<le> (F::int)" "F \<le> 10" "0 \<le> (S::int)" "S \<le> 10"
  shows "Math_round (b64_div (b64_add (b64_add (b64_mul (Fin (of_int T)) (fl64 1.5))
            (Fin (of_int F))) (Fin (of_int S))) (fl64 3.5)) =
         Fin (of_int (round ((of_int T * 1.5 + of_int F + of_int S) / (3.5::real))))"
proof -
  define n where "n = 3 * T + 2 * F + 2 * S"
  have n: "0 \<le> n" "n \<le> 70" using assms by (simp_all add: n_def)
  have r1: "real_of_int T * (3 / 2) = real_of_int (3 * T) / 2" by simp
  have m1: "fl64 (real_of_int T * (3 / 2)) = Fin (real_of_int (3 * T) / 2)"
    unfolding r1 using assms(1,2) by (intro fl64_halves) simp
  have r2: "real_of_int (3 * T) / 2 + real_of_int F = real_of_int (3 * T + 2 * F) / 2" by simp
  have m2: "fl64 (real_of_int (3 * T) / 2 + real_of_int F) = Fin (real_of_int (3 * T + 2 * F) / 2)"
    unfolding r2 using assms(1-4) by (intro fl64_halves) simp
  have r3: "real_of_int (3 * T + 2 * F) / 2 + real_of_int S = real_of_int n / 2"
    by (simp add: n_def)
  have m3: "fl64 (real_of_int (3 * T + 2 * F) / 2 + real_of_int S) = Fin (real_of_int n / 2)"
    unfolding r3 using n by (intro fl64_halves) simp
  have q: "real_of_int n / 2 / (7 / 2) = real_of_int n / 7" by simp
  have e: "(real_of_int T * 1.5 + of_int F + of_int S) / 3.5 = real_of_int n / 7"
    by (simp add: n_def field_simps)
  obtain y where y: "fl64 (real_of_int n / 7) = Fin y" "round y = round (real_of_int n / 7)"
    using round_sevenths [OF n] by auto
  have c1: "fl64 1.5 = Fin (3 / 2)" and c2: "fl64 3.5 = Fin (7 / 2)" by simp_all
  have s1: "b64_mul (Fin (of_int T)) (fl64 1.5) = Fin (real_of_int (3 * T) / 2)"
    unfolding c1 b64_Fin by (rule m1)
  have s2: "b64_add (Fin (real_of_int (3 * T) / 2)) (Fin (of_int F)) =
      Fin (real_of_int (3 * T + 2 * F) / 2)"
    unfolding b64_Fin by (rule m2)
  have s3: "b64_add (Fin (real_of_int (3 * T + 2 * F) / 2)) (Fin (of_int S)) =
      Fin (real_of_int n / 2)"
    unfolding b64_Fin by (rule m3)
  have "b64_div (Fin (real_of_int n / 2)) (Fin (7 / 2)) = fl64 (real_of_int n / 2 / (7 / 2))"
    by (rule b64_div_Fin) simp
  then have s4: "b64_div (Fin (real_of_int n / 2)) (fl64 3.5) = Fin y"
    unfolding c2 q y(1) .
  show ?thesis
    unfolding s1 s2 s3 s4 e using y(2) by (simp add: round_def)
qed


subsection \<open>Decimal constants as doubles\<close>

lemma is_binary64_fl64 [simp]: "is_binary64 (fl64 x)"
  by (simp add: is_binary64_def)

lemma is_binary64_of_int: "\<bar>n\<bar> < 2 ^ 53 \<Longrightarrow> is_binary64 (Fin (of_int n))"
  by (simp add: is_binary64_def round64_def fl64_of_int)

lemma threshold_not_reached:
  assumes "1 / 2 \<le> th" and "th \<le> 1"
  shows "dle (fl64 th) (Fin 0) = False" and "dlt (fl64 th) (Fin 0) = False"
proof -
  have "\<exists>t. fl64 th = Fin t \<and> 1 / 2 \<le> t \<and> t \<le> 1"
    using assms by (intro fl64_between) simp_all
  then obtain t where t: "fl64 th = Fin t" "1 / 2 \<le> t" by auto
  then show "dle (fl64 th) (Fin 0) = False" and "dlt (fl64 th) (Fin 0) = False"
    by simp_all
qed

lemma fl64_10_8: "fl64 10.8 = Fin (3039929748475085 / 2 ^ 48)"
proof -
  have re: "round_even (10.8 / 2 powi (3 - 52)) = 6079859496950170"
    by (intro round_even_eqI) (simp_all add: power_int_minus)
  have "rn 10.8 = 2 powi (3 - 52) * of_int (round_even (10.8 / 2 powi (3 - 52)))"
    by (intro rn_eval) simp_all
  then have "rn 10.8 = 3039929748475085 / 2 ^ 48" unfolding re by (simp add: power_int_minus)
  then show ?thesis by (intro fl64_of_rn) simp_all
qed

lemma fl64_1_2: "fl64 1.2 = Fin (5404319552844595 / 2 ^ 52)"
proof -
  have re: "round_even (1.2 / 2 powi (0 - 52)) = 5404319552844595"
    by (intro round_even_eqI) (simp_all add: power_int_minus)
  have "rn 1.2 = 2 powi (0 - 52) * of_int (round_even (1.2 / 2 powi (0 - 52)))"
    by (intro rn_eval) simp_all
  then have "rn 1.2 = 5404319552844595 / 2 ^ 52" unfolding re by (simp add: power_int_minus)
  then show ?thesis by (intro fl64_of_rn) simp_all
qed

text \<open>
  The literals 10.8 and 1.2 are not doubles; the quotient of the doubles nearest to them
  rounds to the double next above 9, whose ceiling is 10.
\<close>

lemma laps_remaining_10_8: "Math_ceil (b64_div (fl64 10.8) (fl64 1.2)) = Fin 10"
proof -
  define x :: real where "x = 3039929748475085 / 2 ^ 48 / (5404319552844595 / 2 ^ 52)"
  have re: "round_even (x / 2 powi (3 - 52)) = 5066549580791809"
    unfolding x_def by (intro round_even_eqI) (simp_all add: power_int_minus)
  have "rn x = 2 powi (3 - 52) * of_int (round_even (x / 2 powi (3 - 52)))"
    unfolding x_def by (intro rn_eval) simp_all
  then have "rn x = 5066549580791809 / 2 ^ 49" unfolding re by (simp add: power_int_minus)
  then have "fl64 x = Fin (5066549580791809 / 2 ^ 49)" by (intro fl64_of_rn) simp_all
  then have "b64_div (fl64 10.8) (fl64 1.2) = Fin (5066549580791809 / 2 ^ 49)"
    unfolding fl64_10_8 fl64_1_2 x_def by simp
  moreover have "\<lceil>5066549580791809 / 2 ^ 49 :: real\<rceil> = 10"
    by (intro ceiling_unique) simp_all
  ultimately show ?thesis by simp
qed

text \<open>
  C6. For every input of binary64 numbers with \<open>cliffProb\<close> in [0,1] and any tire-age
  ratio, fuel, fuel per lap, position, stint length and weather, \<^verbatim>\<open>analyzePitStrategy\<close>
  computes each of the three sub-scores as the greatest value among the rules of the
  specification that fire (never a sum), each between 0 and 10, and returns
  \<open>totalUrgency = round((tireUrgency * 1.5 + fuelUrgency + strategyUrgency) / 3.5)\<close>, which
  lies between 0 and 10. The tire-age ratio \<open>tireAge / maxTireAge\<close> and the laps of fuel
  remaining \<open>ceil(fuel / fuelPerLap)\<close> are the values the code computes, quotients rounded
  to binary64; the rounding of the weighted mean does not change the total.
\<close>

theorem urgency_score:
  assumes "binary64_inputs cs" and "cs_cliffProb cs = Fin c" and "0 \<le> c" and "c \<le> 1"
  shows "let ageRatio = b64_div (case cs_tireAge cs of None \<Rightarrow> Fin 0 | Some v \<Rightarrow> v)
                                (case cs_maxTireAge cs of None \<Rightarrow> Fin 25 | Some v \<Rightarrow> v);
             lapsFuelRemaining = Math_ceil (b64_div (cs_fuel cs) (cs_fuelPerLap cs));
             T = max_triggered (tire_rules ageRatio (cs_cliffProb cs));
             F = max_triggered (fuel_rules lapsFuelRemaining);
             S = max_triggered (strategy_rules (cs_currentPosition cs) (cs_cliffProb cs)
                                  (cs_lapsSincePit cs) (cs_weather cs));
             total = round ((of_int T * 1.5 + of_int F + of_int S) / (3.5::real))
         in an_tireUrgency (analyzePitStrategy cs) = Fin (of_int T) \<and>
            an_fuelUrgency (analyzePitStrategy cs) = Fin (of_int F) \<and>
            an_strategyUrgency (analyzePitStrategy cs) = Fin (of_int S) \<and>
            an_totalUrgency (analyzePitStrategy cs) = Fin (of_int total) \<and>
            0 \<le> T \<and> T \<le> 10 \<and> 0 \<le> F \<and> F \<le> 10 \<and> 0 \<le> S \<and> S \<le> 10 \<and>
            0 \<le> total \<and> total \<le> 10"
proof -
  define r where "r = b64_div (case cs_tireAge cs of None \<Rightarrow> Fin 0 | Some v \<Rightarrow> v)
                              (case cs_maxTireAge cs of None \<Rightarrow> Fin 25 | Some v \<Rightarrow> v)"
  define L where "L = Math_ceil (b64_div (cs_fuel cs) (cs_fuelPerLap cs))"
  define a0 where "a0 = \<lparr> an_shouldPit = False, an_reason = [], an_tireUrgency = Fin 0,
                 an_fuelUrgency = Fin 0, an_strategyUrgency = Fin 0 \<rparr>"
  define a1 where "a1 = tireAgeUrgency a0 r (Fin c)"
  define a2 where "a2 = cliffProbabilityUrgency a1 (Fin c)"
  define a3 where "a3 = fuelUrgency a2 (cs_fuel cs) (cs_fuelPerLap cs)"
  define a4 where "a4 = strategyUrgency a3 (cs_currentPosition cs) (Fin c) (cs_lapsSincePit cs)
                          (cs_weather cs)"
  define T where "T = max_triggered (tire_rules r (Fin c))"
  define F where "F = max_triggered (fuel_rules L)"
  define S where "S = max_triggered (strategy_rules (cs_currentPosition cs) (Fin c)
                                  (cs_lapsSincePit cs) (cs_weather cs))"
  have res: "analyzePitStrategy cs =
      \<lparr> an_shouldPit = an_shouldPit a4, an_reason = an_reason a4,
        an_tireUrgency = an_tireUrgency a4, an_fuelUrgency = an_fuelUrgency a4,
        an_strategyUrgency = an_strategyUrgency a4,
        an_totalUrgency = Math_round (b64_div (b64_add (b64_add (b64_mul (an_tireUrgency a4)
            (fl64 1.5)) (an_fuelUrgency a4)) (an_strategyUrgency a4)) (fl64 3.5)),
        an_decision = (if an_shouldPit a4 then ''BOX'' else ''STAY'') \<rparr>"
    using assms(2)
    by (simp add: analyzePitStrategy_def Let_def a4_def a3_def a2_def a1_def a0_def r_def)
  obtain y where y: "b64_mul (Fin c) (Fin 5) = Fin y" "0 \<le> round y" "round y \<le> 5"
    using cliff_times_five [OF assms(3,4)] by auto
  have kb: "0 \<le> rounded_score (b64_mul (Fin c) (Fin 5))" "rounded_score (b64_mul (Fin c) (Fin 5)) \<le> 5"
    unfolding y(1) using y(2,3) by simp_all
  note lad = max_triggered_ladder [OF kb, of "dge r (fl64 0.95)" "dge r (fl64 0.85)"
      "dge r (fl64 0.75)" "dge r (fl64 0.60)" "dgt (Fin c) (fl64 0.75)" "dgt (Fin c) (fl64 0.65)"
      "dgt (Fin c) (fl64 0.50)"]
  have Tb: "0 \<le> T" "T \<le> 10" using lad by (simp_all add: T_def tire_rules_def)
  have Fb: "0 \<le> F" "F \<le> 10" by (simp_all add: F_def fuel_rules_max)
  have Sb: "0 \<le> S" "S \<le> 10" by (simp_all add: S_def strategy_rules_max)
  have "an_tireUrgency a4 = an_tireUrgency a2"
    by (simp add: a4_def a3_def strategyUrgency_frame fuelUrgency_frame)
  also have "\<dots> = Fin (of_int T)"
    unfolding a2_def T_def
    using cliffProbabilityUrgency_score [OF tireAgeUrgency_score [OF y(1), of a0 r], of "Fin c"] lad
    by (simp add: a1_def tire_rules_def)
  finally have t: "an_tireUrgency a4 = Fin (of_int T)" .
  have "an_fuelUrgency a4 = an_fuelUrgency a3"
    by (simp add: a4_def strategyUrgency_frame)
  also have "\<dots> = Fin (of_int F)"
    unfolding a3_def F_def L_def by (simp add: fuelUrgency_score fuel_rules_max)
  finally have f: "an_fuelUrgency a4 = Fin (of_int F)" .
  have s: "an_strategyUrgency a4 = Fin (of_int S)"
    unfolding a4_def S_def by (simp add: strategyUrgency_score strategy_rules_max)
  have tot: "an_totalUrgency (analyzePitStrategy cs) =
      Fin (of_int (round ((of_int T * 1.5 + of_int F + of_int S) / (3.5::real))))"
    unfolding res t f s using total_rounded [OF Tb Fb Sb] by simp
  have tb: "0 \<le> round ((of_int T * 1.5 + of_int F + of_int S) / (3.5::real)) \<and>
            round ((of_int T * 1.5 + of_int F + of_int S) / (3.5::real)) \<le> 10"
    using Tb Fb Sb by (rule total_bounds)
  have sub: "an_tireUrgency (analyzePitStrategy cs) = Fin (of_int T)"
    "an_fuelUrgency (analyzePitStrategy cs) = Fin (of_int F)"
    "an_strategyUrgency (analyzePitStrategy cs) = Fin (of_int S)"
    by (simp_all add: res t f s)
  show ?thesis
    unfolding Let_def assms(2) r_def [symmetric] L_def [symmetric] T_def [symmetric]
      F_def [symmetric] S_def [symmetric]
    using sub tot tb Tb Fb Sb by blast
qed

theorem urgency_score_witness:
  "binary64_inputs
     \<lparr> cs_lap = Fin 30, cs_currentPosition = Fin 5, cs_gapToLeader = Fin 3,
       cs_cliffProb = Fin 0, cs_fuel = fl64 10.8, cs_fuelPerLap = fl64 1.2, cs_weather = ''DRY'',
       cs_lapsSincePit = Fin 5, cs_tireAge = None, cs_maxTireAge = None \<rparr> \<and>
   an_tireUrgency (analyzePitStrategy
     \<lparr> cs_lap = Fin 30, cs_currentPosition = Fin 5, cs_gapToLeader = Fin 3,
       cs_cliffProb = Fin 0, cs_fuel = fl64 10.8, cs_fuelPerLap = fl64 1.2, cs_weather = ''DRY'',
       cs_lapsSincePit = Fin 5, cs_tireAge = None, cs_maxTireAge = None \<rparr>) = Fin 0 \<and>
   an_fuelUrgency (analyzePitStrategy
     \<lparr> cs_lap = Fin 30, cs_currentPosition = Fin 5, cs_gapToLeader = Fin 3,
       cs_cliffProb = Fin 0, cs_fuel = fl64 10.8, cs_fuelPerLap = fl64 1.2, cs_weather = ''DRY'',
       cs_lapsSincePit = Fin 5, cs_tireAge = None, cs_maxTireAge = None \<rparr>) = Fin 1 \<and>
   an_strategyUrgency (analyzePitStrategy
     \<lparr> cs_lap = Fin 30, cs_currentPosition = Fin 5, cs_gapToLeader = Fin 3,
       cs_cliffProb = Fin 0, cs_fuel = fl64 10.8, cs_fuelPerLap = fl64 1.2, cs_weather = ''DRY'',
       cs_lapsSincePit = Fin 5, cs_tireAge = None, cs_maxTireAge = None \<rparr>) = Fin 1 \<and>
   an_totalUrgency (analyzePitStrategy
     \<lparr> cs_lap = Fin 30, cs_currentPosition = Fin 5, cs_gapToLeader = Fin 3,
       cs_cliffProb = Fin 0, cs_fuel = fl64 10.8, cs_fuelPerLap = fl64 1.2, cs_weather = ''DRY'',
       cs_lapsSincePit = Fin 5, cs_tireAge = None, cs_maxTireAge = None \<rparr>) = Fin 1"
proof -
  have b: "binary64_inputs
     \<lparr> cs_lap = Fin 30, cs_currentPosition = Fin 5, cs_gapToLeader = Fin 3,
       cs_cliffProb = Fin 0, cs_fuel = fl64 10.8, cs_fuelPerLap = fl64 1.2, cs_weather = ''DRY'',
       cs_lapsSincePit = Fin 5, cs_tireAge = None, cs_maxTireAge = None \<rparr>"
    using is_binary64_of_int [of 30] is_binary64_of_int [of 5] is_binary64_of_int [of 3]
      is_binary64_of_int [of 0]
    by (simp add: binary64_inputs_def)
  from b urgency_score [OF b, of 0] laps_remaining_10_8 show ?thesis
    by (simp add: Let_def max_triggered_def tire_rules_def fuel_rules_def strategy_rules_def
        threshold_not_reached dge_def dgt_def round_def)
qed

end
